theory Spec2Isabelle
  imports Main "HOL-Library.Sublist"
begin

section \<open>Tables and joins of the SQL builder (sqlbuilder/table.go)\<close>

text \<open>
  The development embeds \<^verbatim>\<open>sqlbuilder/table.go\<close>: the physical table \<^verbatim>\<open>Table\<close>, the
  join expression \<^verbatim>\<open>joinTable\<close>, and their serialization into a \<^verbatim>\<open>bytes.Buffer\<close>.

  \<^item> A \<^verbatim>\<open>*bytes.Buffer\<close> is the string written so far; \<^verbatim>\<open>out.WriteString(s)\<close> is
    \<open>out @ s\<close>, and a function that writes takes the buffer and returns the new one.
  \<^item> A Go \<^verbatim>\<open>error\<close> result is an \<open>error option\<close> (\<open>None\<close> is \<^verbatim>\<open>nil\<close>); a
    \<^verbatim>\<open>panic\<close> is the \<open>Panic\<close> branch of an \<open>outcome\<close>.
  \<^item> Pointers are addresses into a store: columns are shared, mutable objects behind the
    \<^verbatim>\<open>Column\<close> interface, a \<^verbatim>\<open>map\<close> is a reference, and \<^verbatim>\<open>*Table\<close> is a pointer to a
    struct that \<^verbatim>\<open>SetAlias\<close> mutates in place.
\<close>

subsection \<open>Errors and panics\<close>

datatype error = Error string

datatype panic_value = PanicString string | PanicError error

datatype 'a outcome = Panic panic_value | Return 'a

subsection \<open>Identifier validation\<close>

definition is_letter :: "char \<Rightarrow> bool" where
  "is_letter c \<longleftrightarrow>
     c \<in> set ''abcdefghijklmnopqrstuvwxyzABCDEFGHIJKLMNOPQRSTUVWXYZ''"

definition is_digit :: "char \<Rightarrow> bool" where
  "is_digit c \<longleftrightarrow> c \<in> set ''0123456789''"

text \<open>
  Modelled from the spec: \<^verbatim>\<open>validIdentifierName\<close> is called by \<^verbatim>\<open>NewTable\<close> and
  \<^verbatim>\<open>Table.SerializeSql\<close> but defined in another file of the package, which is not available.
  The spec (4.1) gives its grammar: non-empty, starts with a letter or an underscore,
  followed by letters, digits and underscores.
\<close>

fun validIdentifierName :: "string \<Rightarrow> bool" where
  "validIdentifierName [] = False"
| "validIdentifierName (c # cs) =
     ((is_letter c \<or> c = CHR ''_'') \<and>
      list_all (\<lambda>d. is_letter d \<or> is_digit d \<or> d = CHR ''_'') cs)"

subsection \<open>Columns\<close>

type_synonym ref = nat

text \<open>
  \<^verbatim>\<open>Column\<close> is an interface; \<^verbatim>\<open>table.go\<close> calls two of its methods,
  \<^verbatim>\<open>setTableName(string) error\<close> and \<^verbatim>\<open>TableName() string\<close>, on values it holds by
  pointer. The implementations are not in \<^verbatim>\<open>table.go\<close>, so the two methods are taken
  as a parameter: \<open>'c\<close> is the state of a column object, \<open>setTableName\<close> returns the
  error and the mutated object, \<open>TableName\<close> reads an object. A column pointer is an
  address of the store, never \<^verbatim>\<open>nil\<close>.
\<close>

record 'c Column_methods =
  setTableName :: "string \<Rightarrow> 'c \<Rightarrow> error option \<times> 'c"
  TableName :: "'c \<Rightarrow> string"

datatype NullableColumn = Nullable | NotNullable

text \<open>
  The one implementation that \<^verbatim>\<open>table.go\<close> names: \<^verbatim>\<open>Table.Column\<close> builds a
  \<^verbatim>\<open>&baseColumn{name: ..., nullable: NotNullable, tableName: ...}\<close>.
\<close>

record baseColumn =
  name :: string
  nullable :: NullableColumn
  tableName :: string

text \<open>
  Modelled from the spec: the methods of \<^verbatim>\<open>baseColumn\<close> are defined outside \<^verbatim>\<open>table.go\<close>.
  The spec (3, 4.2) says that binding stores the owning table's current name or alias in
  the column (mutated in place), and describes no way for it to fail; the bound name
  is what the column reports back.
\<close>

definition baseColumn_setTableName :: "string \<Rightarrow> baseColumn \<Rightarrow> error option \<times> baseColumn" where
  "baseColumn_setTableName table c = (None, c\<lparr>tableName := table\<rparr>)"

definition baseColumn_TableName :: "baseColumn \<Rightarrow> string" where
  "baseColumn_TableName c = tableName c"

definition baseColumn_methods :: "baseColumn Column_methods" where
  "baseColumn_methods =
     \<lparr>setTableName = baseColumn_setTableName, TableName = baseColumn_TableName\<rparr>"

subsection \<open>The store\<close>

text \<open>
  \<^verbatim>\<open>type Table struct\<close>. The slice \<^verbatim>\<open>columns\<close> is the list of the column pointers it
  holds: no function of \<^verbatim>\<open>table.go\<close> writes an element of the backing array, so two
  slice headers over one array and two equal lists of pointers cannot be told apart. The
  map \<^verbatim>\<open>columnLookup\<close> is a reference into the store.
\<close>

record Table =
  schemaName :: string
  name :: string
  "alias" :: string
  columns :: "ref list"
  columnLookup :: ref
  forcedIndex :: string

record 'c heap =
  column_objs :: "ref \<Rightarrow> 'c"
  lookup_objs :: "ref \<Rightarrow> (string \<rightharpoonup> ref)"
  table_objs :: "ref \<Rightarrow> Table"
  next_lookup :: ref
  next_table :: ref

subsection \<open>Physical tables\<close>

text \<open>
  The loop of \<^verbatim>\<open>NewTable\<close>:
  \<^verbatim>\<open>for _, c := range columns { err := c.setTableName(name); if err != nil { panic(err) };
     t.columnLookup[c.TableName()] = c }\<close>
  with \<open>m\<close> the address of \<^verbatim>\<open>t.columnLookup\<close>. \<open>Inl err\<close> is the panic.
\<close>

fun NewTable_loop ::
  "'c Column_methods \<Rightarrow> string \<Rightarrow> ref \<Rightarrow> ref list \<Rightarrow> 'c heap \<Rightarrow> error + 'c heap" where
  "NewTable_loop M table m [] h = Inr h"
| "NewTable_loop M table m (c # cs) h =
     (case setTableName M table (column_objs h c) of
        (Some err, obj) \<Rightarrow> Inl err
      | (None, obj) \<Rightarrow>
          let h1 = h\<lparr>column_objs := (column_objs h)(c := obj)\<rparr>;
              key = TableName M (column_objs h1 c);
              h2 = h1\<lparr>lookup_objs := (lookup_objs h1)(m := (lookup_objs h1 m)(key \<mapsto> c))\<rparr>
          in NewTable_loop M table m cs h2)"

definition NewTable ::
  "'c Column_methods \<Rightarrow> 'c heap \<Rightarrow> string \<Rightarrow> string \<Rightarrow> ref list \<Rightarrow> ('c heap \<times> ref) outcome" where
  "NewTable M h schema table cols =
     (if \<not> validIdentifierName table then Panic (PanicString ''Invalid tableName name'')
      else
        let m = next_lookup h;
            t = next_table h;
            h1 = h\<lparr>lookup_objs := (lookup_objs h)(m := Map.empty),
                   table_objs := (table_objs h)(t :=
                     \<lparr>schemaName = schema, name = table, alias = [], columns = cols,
                      columnLookup = m, forcedIndex = []\<rparr>),
                   next_lookup := Suc m, next_table := Suc t\<rparr>
        in case NewTable_loop M table m cols h1 of
             Inl err \<Rightarrow> Panic (PanicError err)
           | Inr h2 \<Rightarrow>
               if length cols = 0
               then Panic (PanicString (''Table '' @ table @ '' has no columns''))
               else Return (h2, t))"

definition Table_getColumn :: "'c heap \<Rightarrow> ref \<Rightarrow> string \<Rightarrow> error + ref" where
  "Table_getColumn h t col =
     (case lookup_objs h (columnLookup (table_objs h t)) col of
        Some c \<Rightarrow> Inr c
      | None \<Rightarrow>
          Inl (Error (''No such column '' @ [CHR 0x27] @ col @ [CHR 0x27] @
                      '' in tableName '' @ [CHR 0x27] @ name (table_objs h t) @ [CHR 0x27])))"

fun SetAlias_loop ::
  "'c Column_methods \<Rightarrow> string \<Rightarrow> ref list \<Rightarrow> 'c heap \<Rightarrow> error + 'c heap" where
  "SetAlias_loop M a [] h = Inr h"
| "SetAlias_loop M a (c # cs) h =
     (case setTableName M a (column_objs h c) of
        (Some err, obj) \<Rightarrow> Inl err
      | (None, obj) \<Rightarrow> SetAlias_loop M a cs (h\<lparr>column_objs := (column_objs h)(c := obj)\<rparr>))"

definition SetAlias :: "'c Column_methods \<Rightarrow> 'c heap \<Rightarrow> ref \<Rightarrow> string \<Rightarrow> 'c heap outcome" where
  "SetAlias M h t a =
     (let h1 = h\<lparr>table_objs := (table_objs h)(t := (table_objs h t)\<lparr>alias := a\<rparr>)\<rparr>
      in case SetAlias_loop M a (columns (table_objs h1 t)) h1 of
           Inl err \<Rightarrow> Panic (PanicError err)
         | Inr h2 \<Rightarrow> Return h2)"

definition Table_SchemaName :: "'c heap \<Rightarrow> ref \<Rightarrow> string" where
  "Table_SchemaName h t = schemaName (table_objs h t)"

definition Table_TableName :: "'c heap \<Rightarrow> ref \<Rightarrow> string" where
  "Table_TableName h t = name (table_objs h t)"

definition Table_Columns :: "'c heap \<Rightarrow> ref \<Rightarrow> ref list" where
  "Table_Columns h t = columns (table_objs h t)"

text \<open>
  \<^verbatim>\<open>newTable := *t; newTable.forcedIndex = index; return &newTable\<close>: the struct is
  copied to a fresh address; the copy holds the same column pointers and the same map
  reference.
\<close>

definition ForceIndex :: "'c heap \<Rightarrow> ref \<Rightarrow> string \<Rightarrow> 'c heap \<times> ref" where
  "ForceIndex h t index =
     (let newTable = (table_objs h t)\<lparr>forcedIndex := index\<rparr>;
          p = next_table h
      in (h\<lparr>table_objs := (table_objs h)(p := newTable), next_table := Suc p\<rparr>, p))"

definition Table_SerializeSql :: "'c heap \<Rightarrow> ref \<Rightarrow> string \<Rightarrow> error option \<times> string" where
  "Table_SerializeSql h t out =
     (let T = table_objs h t in
      if \<not> validIdentifierName (schemaName T)
      then (Some (Error ''Invalid database name specified''), out)
      else
        let out1 = out @ schemaName T @ ''.'' @ Table_TableName h t;
            out2 = (if length (alias T) > 0 then out1 @ '' AS '' @ alias T else out1)
        in if forcedIndex T \<noteq> []
           then if \<not> validIdentifierName (forcedIndex T)
                then (Some (Error ([CHR 0x27] @ forcedIndex T @ [CHR 0x27] @
                        '' is not a valid identifier for an index'')), out2)
                else (None, out2 @ '' FORCE INDEX ('' @ forcedIndex T @ '')'')
           else (None, out2))"

subsection \<open>Joins\<close>

datatype joinType = INNER_JOIN | LEFT_JOIN | RIGHT_JOIN | FULL_JOIN | CROSS_JOIN

text \<open>
  \<^verbatim>\<open>BoolExpression\<close> is an interface defined outside \<^verbatim>\<open>table.go\<close>, which calls one
  method of it, \<^verbatim>\<open>SerializeSql(out *bytes.Buffer) error\<close>. An expression is taken to be
  that method: what it does to the buffer and the error it returns.
\<close>

type_synonym BoolExpression = "string \<Rightarrow> error option \<times> string"

text \<open>
  A \<^verbatim>\<open>ReadableTable\<close> interface value that is not \<^verbatim>\<open>nil\<close> is a \<^verbatim>\<open>*Table\<close> or a
  \<^verbatim>\<open>*joinTable\<close>; \<^verbatim>\<open>nil\<close> is \<open>None\<close> in the fields \<^verbatim>\<open>lhs\<close>, \<^verbatim>\<open>rhs\<close> and
  \<^verbatim>\<open>onCondition\<close>. No function writes a field of a \<^verbatim>\<open>joinTable\<close> after
  \<^verbatim>\<open>newJoinTable\<close>, so the struct is a value here; the tables at its leaves stay
  pointers and are read from the store when the join is serialized.
\<close>

datatype ReadableTable =
    TablePtr ref
  | JoinPtr (lhs: "ReadableTable option") (rhs: "ReadableTable option")
      (join_type: joinType) (onCondition: "BoolExpression option")

definition newJoinTable ::
  "ReadableTable option \<Rightarrow> ReadableTable option \<Rightarrow> joinType \<Rightarrow> BoolExpression option
     \<Rightarrow> ReadableTable" where
  "newJoinTable l r k cond = JoinPtr l r k cond"

definition InnerJoinOn ::
  "ReadableTable option \<Rightarrow> ReadableTable option \<Rightarrow> BoolExpression option \<Rightarrow> ReadableTable" where
  "InnerJoinOn l r cond = newJoinTable l r INNER_JOIN cond"

definition LeftJoinOn ::
  "ReadableTable option \<Rightarrow> ReadableTable option \<Rightarrow> BoolExpression option \<Rightarrow> ReadableTable" where
  "LeftJoinOn l r cond = newJoinTable l r LEFT_JOIN cond"

definition RightJoinOn ::
  "ReadableTable option \<Rightarrow> ReadableTable option \<Rightarrow> BoolExpression option \<Rightarrow> ReadableTable" where
  "RightJoinOn l r cond = newJoinTable l r RIGHT_JOIN cond"

definition FullJoin ::
  "ReadableTable option \<Rightarrow> ReadableTable option \<Rightarrow> BoolExpression option \<Rightarrow> ReadableTable" where
  "FullJoin l r cond = newJoinTable l r FULL_JOIN cond"

definition CrossJoin :: "ReadableTable option \<Rightarrow> ReadableTable option \<Rightarrow> ReadableTable" where
  "CrossJoin l r = newJoinTable l r CROSS_JOIN None"

fun SchemaName :: "'c heap \<Rightarrow> ReadableTable \<Rightarrow> string" where
  "SchemaName h (TablePtr t) = Table_SchemaName h t"
| "SchemaName h (JoinPtr l r k cond) = []"

fun TableName_of :: "'c heap \<Rightarrow> ReadableTable \<Rightarrow> string" where
  "TableName_of h (TablePtr t) = Table_TableName h t"
| "TableName_of h (JoinPtr l r k cond) = []"

fun SerializeSql :: "'c heap \<Rightarrow> ReadableTable \<Rightarrow> string \<Rightarrow> error option \<times> string" where
  "SerializeSql h (TablePtr t) out = Table_SerializeSql h t out"
| "SerializeSql h (JoinPtr l r k cond) out =
     (case l of
        None \<Rightarrow> (Some (Error (''nil lhs.  Generated sql: '' @ out)), out)
      | Some lt \<Rightarrow>
     (case r of
        None \<Rightarrow> (Some (Error (''nil rhs.  Generated sql: '' @ out)), out)
      | Some rt \<Rightarrow>
     if cond = None \<and> k \<noteq> CROSS_JOIN
     then (Some (Error (''nil onCondition.  Generated sql: '' @ out)), out)
     else
     (case SerializeSql h lt out of
        (Some err, out1) \<Rightarrow> (Some err, out1)
      | (None, out1) \<Rightarrow>
     let out2 = (case k of
                   INNER_JOIN \<Rightarrow> out1 @ '' JOIN ''
                 | LEFT_JOIN \<Rightarrow> out1 @ '' LEFT JOIN ''
                 | RIGHT_JOIN \<Rightarrow> out1 @ '' RIGHT JOIN ''
                 | FULL_JOIN \<Rightarrow> out1 @ '' FULL JOIN ''
                 | CROSS_JOIN \<Rightarrow> out1 @ '' CROSS JOIN '')
     in
     (case SerializeSql h rt out2 of
        (Some err, out3) \<Rightarrow> (Some err, out3)
      | (None, out3) \<Rightarrow>
     (case cond of
        Some e \<Rightarrow>
          (case e (out3 @ '' ON '') of
             (Some err, out4) \<Rightarrow> (Some err, out4)
           | (None, out4) \<Rightarrow> (None, out4))
      | None \<Rightarrow> (None, out3))))))"

subsection \<open>Notions used by the statements\<close>

text \<open>The physical tables at the leaves of a relation, left to right.\<close>

fun tables_of :: "ReadableTable \<Rightarrow> ref list" where
  "tables_of (TablePtr t) = [t]"
| "tables_of (JoinPtr l r k cond) =
     (case l of None \<Rightarrow> [] | Some lt \<Rightarrow> tables_of lt) @
     (case r of None \<Rightarrow> [] | Some rt \<Rightarrow> tables_of rt)"

text \<open>
  The keyword of each join kind as the spec lists it (4.3, 6), to be compared with what
  the \<^verbatim>\<open>switch\<close> of \<^verbatim>\<open>joinTable.SerializeSql\<close> writes.
\<close>

fun join_keyword :: "joinType \<Rightarrow> string" where
  "join_keyword INNER_JOIN = '' JOIN ''"
| "join_keyword LEFT_JOIN = '' LEFT JOIN ''"
| "join_keyword RIGHT_JOIN = '' RIGHT JOIN ''"
| "join_keyword FULL_JOIN = '' FULL JOIN ''"
| "join_keyword CROSS_JOIN = '' CROSS JOIN ''"

text \<open>
  The law of binding in the spec's words (3: a column carries the current name or alias of
  its owning table): a column that was bound to a name reports that name.
\<close>

definition binds_name :: "'c Column_methods \<Rightarrow> bool" where
  "binds_name M \<longleftrightarrow>
     (\<forall>table c. fst (setTableName M table c) = None \<longrightarrow>
        TableName M (snd (setTableName M table c)) = table)"

subsection \<open>Example stores\<close>

text \<open>
  A store holding three \<^verbatim>\<open>baseColumn\<close> objects that belong to no table yet, at the
  addresses 0, 1 and 2 (every other address holds the same object as 2, and is never used).
\<close>

definition heap0 :: "baseColumn heap" where
  "heap0 =
     \<lparr>column_objs = (\<lambda>r. \<lparr>baseColumn.name = (if r = 0 then ''id'' else if r = 1 then ''title'' else ''year''),
                            nullable = NotNullable, tableName = []\<rparr>),
      lookup_objs = (\<lambda>r. Map.empty),
      table_objs = (\<lambda>r. \<lparr>schemaName = [], name = [], alias = [], columns = [],
                           columnLookup = 0, forcedIndex = []\<rparr>),
      next_lookup = 0, next_table = 0\<rparr>"

text \<open>The store after \<^verbatim>\<open>NewTable("s", "t", c0, c1)\<close>; the table is at address 0.\<close>

definition heap_st :: "baseColumn heap" where
  "heap_st =
     (case NewTable baseColumn_methods heap0 ''s'' ''t'' [0, 1] of
        Return (h, t) \<Rightarrow> h
      | Panic v \<Rightarrow> heap0)"

text \<open>The store after \<^verbatim>\<open>SetAlias("a")\<close> on that table.\<close>

definition heap_st_a :: "baseColumn heap" where
  "heap_st_a =
     (case SetAlias baseColumn_methods heap_st 0 ''a'' of
        Return h \<Rightarrow> h
      | Panic v \<Rightarrow> heap_st)"

text \<open>
  The store after \<^verbatim>\<open>NewTable("s", "a", c0)\<close>, \<^verbatim>\<open>NewTable("s", "b", c1)\<close> and
  \<^verbatim>\<open>NewTable("s", "c", c2)\<close>; the tables are at the addresses 0, 1 and 2.
\<close>

definition heap_abc :: "baseColumn heap" where
  "heap_abc =
     (case NewTable baseColumn_methods heap0 ''s'' ''a'' [0] of
        Panic v \<Rightarrow> heap0
      | Return (h1, ta) \<Rightarrow>
     (case NewTable baseColumn_methods h1 ''s'' ''b'' [1] of
        Panic v \<Rightarrow> heap0
      | Return (h2, tb) \<Rightarrow>
     (case NewTable baseColumn_methods h2 ''s'' ''c'' [2] of
        Panic v \<Rightarrow> heap0
      | Return (h3, tc) \<Rightarrow> h3)))"

text \<open>
  The store after \<^verbatim>\<open>ForceIndex("i;x")\<close> on the table of \<open>heap_st\<close> (the copy is at
  address 1) and \<^verbatim>\<open>NewTable("a;b", "u", c2)\<close> (at address 2).
\<close>

definition heap_bad :: "baseColumn heap" where
  "heap_bad =
     (case ForceIndex heap_st 0 ''i;x'' of
        (h1, t1) \<Rightarrow>
     (case NewTable baseColumn_methods h1 ''a;b'' ''u'' [2] of
        Panic v \<Rightarrow> heap0
      | Return (h2, t2) \<Rightarrow> h2))"

text \<open>The store after \<^verbatim>\<open>ForceIndex("idx")\<close> on the table of \<open>heap_st\<close>.\<close>

definition heap_st_idx :: "baseColumn heap" where
  "heap_st_idx = fst (ForceIndex heap_st 0 ''idx'')"

text \<open>
  The stores after \<^verbatim>\<open>SetAlias("a")\<close> on the copy (address 1), and on the original
  (address 0), both starting from \<open>heap_st_idx\<close>.
\<close>

definition heap_copy_a :: "baseColumn heap" where
  "heap_copy_a =
     (case SetAlias baseColumn_methods heap_st_idx 1 ''a'' of
        Return h \<Rightarrow> h
      | Panic v \<Rightarrow> heap_st_idx)"

definition heap_orig_a :: "baseColumn heap" where
  "heap_orig_a =
     (case SetAlias baseColumn_methods heap_st_idx 0 ''a'' of
        Return h \<Rightarrow> h
      | Panic v \<Rightarrow> heap_st_idx)"

text \<open>
  A second implementation of the two methods, to exercise the branches
  \<^verbatim>\<open>if err != nil { panic(err) }\<close>: it refuses the table name \<open>select\<close> and leaves
  the column as it was.
\<close>

definition reserved_setTableName :: "string \<Rightarrow> baseColumn \<Rightarrow> error option \<times> baseColumn" where
  "reserved_setTableName table c =
     (if table = ''select'' then (Some (Error ''reserved word''), c)
      else (None, c\<lparr>tableName := table\<rparr>))"

definition reserved_methods :: "baseColumn Column_methods" where
  "reserved_methods =
     \<lparr>setTableName = reserved_setTableName, TableName = baseColumn_TableName\<rparr>"

text \<open>
  A third implementation: the column named \<open>title\<close> (address 1 of the example stores)
  refuses every binding, so that the failing column is not the first of a table.
\<close>

definition picky_setTableName :: "string \<Rightarrow> baseColumn \<Rightarrow> error option \<times> baseColumn" where
  "picky_setTableName table c =
     (if baseColumn.name c = ''title'' then (Some (Error ''unbindable column''), c)
      else (None, c\<lparr>tableName := table\<rparr>))"

definition picky_methods :: "baseColumn Column_methods" where
  "picky_methods = \<lparr>setTableName = picky_setTableName, TableName = baseColumn_TableName\<rparr>"

text \<open>A condition whose serialization writes a fixed fragment and succeeds.\<close>

definition fragment :: "string \<Rightarrow> BoolExpression" where
  "fragment s out = (None, out @ s)"

section \<open>Properties\<close>

text \<open>
  C10. For every join expression the accessors \<^verbatim>\<open>SchemaName()\<close> and \<^verbatim>\<open>TableName()\<close>
  return the empty string, whatever the joined relations are called.
\<close>

theorem joinTable_names_empty:
  "SchemaName h (newJoinTable l r k cond) = [] \<and> TableName_of h (newJoinTable l r k cond) = []"
  by (simp add: newJoinTable_def)

subsection \<open>The example stores, evaluated\<close>

lemmas example_eval = NewTable_def SetAlias_def ForceIndex_def Let_def heap0_def
  baseColumn_methods_def baseColumn_setTableName_def baseColumn_TableName_def
  is_letter_def is_digit_def

lemma NewTable_st:
  "NewTable baseColumn_methods heap0 ''s'' ''t'' [0, Suc 0] = Return (heap_st, 0)"
  by (simp add: heap_st_def example_eval)

lemma heap_st_table:
  "table_objs heap_st 0 =
     \<lparr>schemaName = ''s'', name = ''t'', alias = [], columns = [0, Suc 0],
      columnLookup = 0, forcedIndex = []\<rparr>"
  by (simp add: heap_st_def example_eval)

lemma heap_st_next: "next_table heap_st = Suc 0" "next_lookup heap_st = Suc 0"
  by (simp_all add: heap_st_def example_eval)

lemma SetAlias_st: "SetAlias baseColumn_methods heap_st 0 ''a'' = Return heap_st_a"
  by (simp add: heap_st_a_def SetAlias_def Let_def heap_st_table baseColumn_methods_def
      baseColumn_setTableName_def)

lemma heap_st_a_table:
  "table_objs heap_st_a 0 =
     \<lparr>schemaName = ''s'', name = ''t'', alias = ''a'', columns = [0, Suc 0],
      columnLookup = 0, forcedIndex = []\<rparr>"
  by (simp add: heap_st_a_def SetAlias_def Let_def heap_st_table baseColumn_methods_def
      baseColumn_setTableName_def)

lemma heap_abc_tables:
  "table_objs heap_abc 0 =
     \<lparr>schemaName = ''s'', name = ''a'', alias = [], columns = [0],
      columnLookup = 0, forcedIndex = []\<rparr>"
  "table_objs heap_abc (Suc 0) =
     \<lparr>schemaName = ''s'', name = ''b'', alias = [], columns = [Suc 0],
      columnLookup = Suc 0, forcedIndex = []\<rparr>"
  "table_objs heap_abc 2 =
     \<lparr>schemaName = ''s'', name = ''c'', alias = [], columns = [2],
      columnLookup = 2, forcedIndex = []\<rparr>"
  by (simp_all add: heap_abc_def example_eval)

lemma heap_bad_tables:
  "table_objs heap_bad 0 =
     \<lparr>schemaName = ''s'', name = ''t'', alias = [], columns = [0, Suc 0],
      columnLookup = 0, forcedIndex = []\<rparr>"
  "table_objs heap_bad (Suc 0) =
     \<lparr>schemaName = ''s'', name = ''t'', alias = [], columns = [0, Suc 0],
      columnLookup = 0, forcedIndex = ''i;x''\<rparr>"
  "table_objs heap_bad 2 =
     \<lparr>schemaName = ''a;b'', name = ''u'', alias = [], columns = [2],
      columnLookup = Suc 0, forcedIndex = []\<rparr>"
  by (simp_all add: heap_bad_def ForceIndex_def NewTable_def Let_def heap_st_table heap_st_next
      baseColumn_methods_def baseColumn_setTableName_def baseColumn_TableName_def
      is_letter_def is_digit_def)

lemma binds_name_baseColumn: "binds_name baseColumn_methods"
  by (simp add: binds_name_def baseColumn_methods_def baseColumn_setTableName_def
      baseColumn_TableName_def)

subsection \<open>Serialization of a physical table\<close>

lemma Table_SerializeSql_valid:
  assumes "validIdentifierName (schemaName (table_objs h t))"
      and "forcedIndex (table_objs h t) = [] \<or> validIdentifierName (forcedIndex (table_objs h t))"
  shows "Table_SerializeSql h t out =
     (None, out @ schemaName (table_objs h t) @ ''.'' @ name (table_objs h t) @
        (if alias (table_objs h t) = [] then [] else '' AS '' @ alias (table_objs h t)) @
        (if forcedIndex (table_objs h t) = [] then []
         else '' FORCE INDEX ('' @ forcedIndex (table_objs h t) @ '')''))"
  using assms by (auto simp: Table_SerializeSql_def Table_TableName_def Let_def)

lemma Table_SerializeSql_None_iff:
  "fst (Table_SerializeSql h t out) = None \<longleftrightarrow>
     validIdentifierName (schemaName (table_objs h t)) \<and>
     (forcedIndex (table_objs h t) = [] \<or> validIdentifierName (forcedIndex (table_objs h t)))"
  by (auto simp: Table_SerializeSql_def Table_TableName_def Let_def)

lemma example_table_texts:
  "Table_SerializeSql heap_abc 0 out = (None, out @ ''s.a'')"
  "Table_SerializeSql heap_abc (Suc 0) out = (None, out @ ''s.b'')"
  "Table_SerializeSql heap_abc 2 out = (None, out @ ''s.c'')"
  by (simp_all add: Table_SerializeSql_valid heap_abc_tables is_letter_def)

text \<open>
  C3. A physical table whose schema name passes identifier validation, and whose forced
  index passes it when one is set, serializes to \<open>schema.name\<close>, then \<open> AS alias\<close>
  exactly when the alias is not empty, then \<open> FORCE INDEX (index)\<close> exactly when the
  forced index is not empty. (The table name was validated by \<^verbatim>\<open>NewTable\<close>; the alias
  is written as it is.)
\<close>

theorem Table_SerializeSql_text:
  assumes "validIdentifierName (schemaName (table_objs h t))"
      and "forcedIndex (table_objs h t) = [] \<or> validIdentifierName (forcedIndex (table_objs h t))"
  shows "SerializeSql h (TablePtr t) out =
     (None, out @ schemaName (table_objs h t) @ ''.'' @ name (table_objs h t) @
        (if alias (table_objs h t) = [] then [] else '' AS '' @ alias (table_objs h t)) @
        (if forcedIndex (table_objs h t) = [] then []
         else '' FORCE INDEX ('' @ forcedIndex (table_objs h t) @ '')''))"
  using Table_SerializeSql_valid[OF assms] by simp

theorem Table_SerializeSql_text_witness:
  "NewTable baseColumn_methods heap0 ''s'' ''t'' [0, 1] = Return (heap_st, 0) \<and>
   SerializeSql heap_st (TablePtr 0) [] = (None, ''s.t'') \<and>
   SetAlias baseColumn_methods heap_st 0 ''a'' = Return heap_st_a \<and>
   SerializeSql heap_st_a (TablePtr 0) [] = (None, ''s.t AS a'')"
  using Table_SerializeSql_text[of heap_st 0 "[]"] Table_SerializeSql_text[of heap_st_a 0 "[]"]
  by (simp add: NewTable_st SetAlias_st heap_st_table heap_st_a_table is_letter_def)

subsection \<open>Serialization of a join\<close>

text \<open>
  C5. \<^verbatim>\<open>newJoinTable\<close> stores its four arguments as they are and cannot fail.
  Serializing a join whose left relation is \<^verbatim>\<open>nil\<close>, whose right relation is \<^verbatim>\<open>nil\<close>,
  or whose condition is \<^verbatim>\<open>nil\<close> while its kind is not CROSS, returns an error at once:
  the buffer is returned as it was, and the message ends with the buffer's text.
\<close>

theorem join_serialize_fails_fast:
  assumes "l = None \<or> r = None \<or> (cond = None \<and> k \<noteq> CROSS_JOIN)"
  shows "newJoinTable l r k cond = JoinPtr l r k cond \<and>
     SerializeSql h (newJoinTable l r k cond) out =
       (Some (Error ((if l = None then ''nil lhs.  Generated sql: ''
                      else if r = None then ''nil rhs.  Generated sql: ''
                      else ''nil onCondition.  Generated sql: '') @ out)), out)"
  using assms by (auto simp: newJoinTable_def split: option.splits)

theorem join_serialize_fails_fast_witness:
  "SerializeSql heap_abc (InnerJoinOn (Some (TablePtr 0)) (Some (TablePtr 1)) None) ''SELECT ''
     = (Some (Error ''nil onCondition.  Generated sql: SELECT ''), ''SELECT '') \<and>
   SerializeSql heap_abc (LeftJoinOn None (Some (TablePtr 1)) (Some (fragment ''x''))) ''SELECT ''
     = (Some (Error ''nil lhs.  Generated sql: SELECT ''), ''SELECT '') \<and>
   SerializeSql heap_abc (FullJoin (Some (TablePtr 0)) None (Some (fragment ''x''))) ''SELECT ''
     = (Some (Error ''nil rhs.  Generated sql: SELECT ''), ''SELECT '')"
  using join_serialize_fails_fast[of "Some (TablePtr 0)" "Some (TablePtr 1)" None INNER_JOIN
          heap_abc "''SELECT ''"]
        join_serialize_fails_fast[of None "Some (TablePtr 1)" "Some (fragment ''x'')" LEFT_JOIN
          heap_abc "''SELECT ''"]
        join_serialize_fails_fast[of "Some (TablePtr 0)" None "Some (fragment ''x'')" FULL_JOIN
          heap_abc "''SELECT ''"]
  by (simp add: InnerJoinOn_def LeftJoinOn_def FullJoin_def)

lemma join_node_text:
  assumes A: "\<And>o1. SerializeSql h A o1 = (None, o1 @ a)"
      and B: "\<And>o2. SerializeSql h B o2 = (None, o2 @ b)"
      and E: "\<And>o3. e o3 = (None, o3 @ x)"
  shows "SerializeSql h (newJoinTable (Some A) (Some B) k (Some e)) out =
           (None, out @ a @ join_keyword k @ b @ '' ON '' @ x)"
  by (cases k) (simp_all add: newJoinTable_def A B E)

lemma cross_node_text:
  assumes A: "\<And>o1. SerializeSql h A o1 = (None, o1 @ a)"
      and B: "\<And>o2. SerializeSql h B o2 = (None, o2 @ b)"
  shows "SerializeSql h (newJoinTable (Some A) (Some B) CROSS_JOIN None) out =
           (None, out @ a @ '' CROSS JOIN '' @ b)"
  by (simp add: newJoinTable_def A B)

text \<open>
  C4. Let the relations \<open>A\<close>, \<open>B\<close>, \<open>C\<close> and the conditions \<open>c1\<close>, \<open>c2\<close> serialize
  successfully, appending the texts \<open>a\<close>, \<open>b\<close>, \<open>c\<close>, \<open>x1\<close>, \<open>x2\<close> to the buffer.
  Then \<open>innerJoin(innerJoin(A, B, c1), C, c2)\<close> appends
  \<open>a JOIN b ON x1 JOIN c ON x2\<close>; a join of any kind with a condition appends its left
  side, the keyword of its kind, its right side, \<open> ON \<close> and the condition; a cross join
  without condition appends its left side, \<open> CROSS JOIN \<close> and its right side.
\<close>

theorem nested_join_text:
  assumes A: "\<And>o1. SerializeSql h A o1 = (None, o1 @ a)"
      and B: "\<And>o2. SerializeSql h B o2 = (None, o2 @ b)"
      and C: "\<And>o3. SerializeSql h C o3 = (None, o3 @ c)"
      and E1: "\<And>o4. c1 o4 = (None, o4 @ x1)"
      and E2: "\<And>o5. c2 o5 = (None, o5 @ x2)"
  shows "SerializeSql h
           (InnerJoinOn (Some (InnerJoinOn (Some A) (Some B) (Some c1))) (Some C) (Some c2)) out
           = (None, out @ a @ '' JOIN '' @ b @ '' ON '' @ x1 @ '' JOIN '' @ c @ '' ON '' @ x2) \<and>
         (\<forall>k. SerializeSql h (newJoinTable (Some A) (Some B) k (Some c1)) out
           = (None, out @ a @ join_keyword k @ b @ '' ON '' @ x1)) \<and>
         SerializeSql h (newJoinTable (Some A) (Some B) CROSS_JOIN None) out
           = (None, out @ a @ '' CROSS JOIN '' @ b)"
proof -
  have inner: "\<And>o6. SerializeSql h (newJoinTable (Some A) (Some B) INNER_JOIN (Some c1)) o6
      = (None, o6 @ (a @ '' JOIN '' @ b @ '' ON '' @ x1))"
    using join_node_text[OF A B E1, of INNER_JOIN] by simp
  have "SerializeSql h (newJoinTable (Some (newJoinTable (Some A) (Some B) INNER_JOIN (Some c1)))
          (Some C) INNER_JOIN (Some c2)) out
        = (None, out @ (a @ '' JOIN '' @ b @ '' ON '' @ x1) @ join_keyword INNER_JOIN @ c @ '' ON '' @ x2)"
    by (rule join_node_text[OF inner C E2])
  then show ?thesis
    using join_node_text[OF A B E1] cross_node_text[OF A B]
    by (simp add: InnerJoinOn_def)
qed

theorem nested_join_text_witness:
  "SerializeSql heap_abc
     (InnerJoinOn (Some (InnerJoinOn (Some (TablePtr 0)) (Some (TablePtr 1))
        (Some (fragment ''a.id = b.id'')))) (Some (TablePtr 2)) (Some (fragment ''b.id = c.id''))) []
     = (None, ''s.a JOIN s.b ON a.id = b.id JOIN s.c ON b.id = c.id'') \<and>
   SerializeSql heap_abc
     (LeftJoinOn (Some (TablePtr 0)) (Some (TablePtr 1)) (Some (fragment ''a.id = b.id''))) []
     = (None, ''s.a LEFT JOIN s.b ON a.id = b.id'')"
  using nested_join_text[of heap_abc "TablePtr 0" "''s.a''" "TablePtr 1" "''s.b''"
          "TablePtr 2" "''s.c''" "fragment ''a.id = b.id''" "''a.id = b.id''"
          "fragment ''b.id = c.id''" "''b.id = c.id''" "[]"]
  by (simp add: example_table_texts fragment_def LeftJoinOn_def)

subsection \<open>Invalid identifiers\<close>

lemma SerializeSql_invalid:
  assumes "t \<in> set (tables_of R)"
      and "\<not> (validIdentifierName (schemaName (table_objs h t)) \<and>
             (forcedIndex (table_objs h t) = [] \<or>
              validIdentifierName (forcedIndex (table_objs h t))))"
  shows "fst (SerializeSql h R out) \<noteq> None"
  using assms
proof (induction h R out rule: SerializeSql.induct)
  case (1 h t' out)
  then show ?case using Table_SerializeSql_None_iff[of h t out] by auto
next
  case (2 h l r k cond out)
  show ?case
  proof (cases l)
    case None
    then show ?thesis by simp
  next
    case (Some lt)
    note L = this
    show ?thesis
    proof (cases r)
      case None
      then show ?thesis using L by simp
    next
      case (Some rt)
      note R = this
      show ?thesis
      proof (cases "cond = None \<and> k \<noteq> CROSS_JOIN")
        case True
        then show ?thesis using L R by simp
      next
        case False
        note C = this
        obtain e1 o1 where S1: "SerializeSql h lt out = (e1, o1)"
          by (cases "SerializeSql h lt out")
        show ?thesis
        proof (cases e1)
          case (Some err)
          then show ?thesis using L R C S1 by (simp split: option.splits)
        next
          case None
          note E1 = this
          have "t \<notin> set (tables_of lt)"
            using "2.IH"(1)[OF L R C] "2.prems"(2) S1 E1 by auto
          then have inr: "t \<in> set (tables_of rt)"
            using "2.prems"(1) L R by simp
          define out2 where "out2 =
            (case k of
               INNER_JOIN \<Rightarrow> o1 @ '' JOIN ''
             | LEFT_JOIN \<Rightarrow> o1 @ '' LEFT JOIN ''
             | RIGHT_JOIN \<Rightarrow> o1 @ '' RIGHT JOIN ''
             | FULL_JOIN \<Rightarrow> o1 @ '' FULL JOIN ''
             | CROSS_JOIN \<Rightarrow> o1 @ '' CROSS JOIN '')"
          have "fst (SerializeSql h rt out2) \<noteq> None"
            using "2.IH"(2)[OF L R C S1[symmetric] E1 out2_def] inr "2.prems"(2) by blast
          then obtain err o3 where S2: "SerializeSql h rt out2 = (Some err, o3)"
            by (cases "SerializeSql h rt out2") auto
          show ?thesis
            using L R C S1 E1 S2 unfolding out2_def by (simp add: Let_def)
        qed
      qed
    qed
  qed
qed

text \<open>
  C7. If a relation contains a physical table whose schema name fails identifier
  validation, or whose forced index is set and fails it, then serializing the relation
  returns an error. A physical table serializes without error exactly when its schema
  name passes validation and its forced index is empty or passes validation.
\<close>

theorem invalid_identifier_rejected:
  "(t \<in> set (tables_of R) \<and>
    (\<not> validIdentifierName (schemaName (table_objs h t)) \<or>
     forcedIndex (table_objs h t) \<noteq> [] \<and> \<not> validIdentifierName (forcedIndex (table_objs h t)))
    \<longrightarrow> fst (SerializeSql h R out) \<noteq> None) \<and>
   (fst (SerializeSql h (TablePtr t) out) = None \<longleftrightarrow>
      validIdentifierName (schemaName (table_objs h t)) \<and>
      (forcedIndex (table_objs h t) = [] \<or> validIdentifierName (forcedIndex (table_objs h t))))"
  using SerializeSql_invalid[of t R h out] Table_SerializeSql_None_iff[of h t out]
  by auto

theorem invalid_identifier_rejected_witness:
  "\<not> validIdentifierName ''a;b'' \<and> \<not> validIdentifierName ''i;x'' \<and>
   schemaName (table_objs heap_bad 2) = ''a;b'' \<and>
   forcedIndex (table_objs heap_bad 1) = ''i;x'' \<and>
   fst (SerializeSql heap_bad (TablePtr 2) []) \<noteq> None \<and>
   fst (SerializeSql heap_bad
          (InnerJoinOn (Some (TablePtr 0)) (Some (TablePtr 1)) (Some (fragment ''x''))) [])
     \<noteq> None \<and>
   fst (SerializeSql heap_bad (TablePtr 0) []) = None"
  using invalid_identifier_rejected[of 2 "TablePtr 2" heap_bad "[]"]
        invalid_identifier_rejected[of 1
          "InnerJoinOn (Some (TablePtr 0)) (Some (TablePtr 1)) (Some (fragment ''x''))"
          heap_bad "[]"]
        invalid_identifier_rejected[of 0 "TablePtr 0" heap_bad "[]"]
  by (simp add: heap_bad_tables InnerJoinOn_def newJoinTable_def is_letter_def is_digit_def)

subsection \<open>Cross joins\<close>

lemma CrossJoin_node:
  "SerializeSql h (CrossJoin (Some A) (Some B)) out =
     (case SerializeSql h A out of
        (Some err, out1) \<Rightarrow> (Some err, out1)
      | (None, out1) \<Rightarrow> SerializeSql h B (out1 @ '' CROSS JOIN ''))"
  by (auto simp: CrossJoin_def newJoinTable_def split: prod.splits option.splits)

text \<open>
  C6 as stated fails: the text \<open> ON \<close> is emitted when a relation under the cross join
  is itself a join with a condition.
\<close>

theorem cross_join_ON_counterexample:
  "SerializeSql heap_abc
     (CrossJoin (Some (InnerJoinOn (Some (TablePtr 0)) (Some (TablePtr 1)) (Some (fragment ''x''))))
        (Some (TablePtr 2))) []
     = (None, ''s.a JOIN s.b ON x CROSS JOIN s.c'') \<and>
   sublist '' ON '' ''s.a JOIN s.b ON x CROSS JOIN s.c''"
  by (simp add: CrossJoin_def InnerJoinOn_def newJoinTable_def example_table_texts fragment_def
      sublist_code)

text \<open>
  C6, as the code has it. The join built by \<^verbatim>\<open>CrossJoin\<close> has no condition, and its
  serialization writes the left relation, \<open> CROSS JOIN \<close> and the right relation, and
  nothing after the right relation: the node never takes its own \<open> ON \<close> branch. What
  the two relations write themselves is not restricted: a joined inner join writes its
  own \<open> ON \<close>.
\<close>

theorem cross_join_node_text:
  "onCondition (CrossJoin l r) = None \<and>
   SerializeSql h (CrossJoin (Some A) (Some B)) out =
     (case SerializeSql h A out of
        (Some err, out1) \<Rightarrow> (Some err, out1)
      | (None, out1) \<Rightarrow> SerializeSql h B (out1 @ '' CROSS JOIN ''))"
  using CrossJoin_node[of h A B out] by (simp add: CrossJoin_def newJoinTable_def)

theorem cross_join_node_text_witness:
  "SerializeSql heap_abc (CrossJoin (Some (TablePtr 0)) (Some (TablePtr 1))) []
     = (None, ''s.a CROSS JOIN s.b'') \<and>
   \<not> sublist '' ON '' ''s.a CROSS JOIN s.b''"
  using cross_join_node_text[of "Some (TablePtr 0)" "Some (TablePtr 1)" heap_abc
          "TablePtr 0" "TablePtr 1" "[]"]
  by (simp add: example_table_texts sublist_code)

subsection \<open>The loops over the columns\<close>

lemma SetAlias_loop_frame:
  assumes "SetAlias_loop M a cs h = Inr h'"
  shows "table_objs h' = table_objs h \<and> lookup_objs h' = lookup_objs h \<and>
         next_table h' = next_table h \<and> next_lookup h' = next_lookup h \<and>
         (\<forall>r. r \<notin> set cs \<longrightarrow> column_objs h' r = column_objs h r)"
  using assms
proof (induction cs arbitrary: h)
  case Nil
  then show ?case by simp
next
  case (Cons c cs)
  obtain e obj where S: "setTableName M a (column_objs h c) = (e, obj)"
    by (cases "setTableName M a (column_objs h c)")
  with Cons.prems have E: "e = None" by (cases e) auto
  let ?h1 = "h\<lparr>column_objs := (column_objs h)(c := obj)\<rparr>"
  from Cons.prems S E have "SetAlias_loop M a cs ?h1 = Inr h'" by simp
  from Cons.IH[OF this] show ?case by auto
qed

lemma SetAlias_loop_bound:
  assumes "SetAlias_loop M a cs h = Inr h'" and "distinct cs" and "r \<in> set cs"
  shows "column_objs h' r = snd (setTableName M a (column_objs h r))"
  using assms
proof (induction cs arbitrary: h)
  case Nil
  then show ?case by simp
next
  case (Cons c cs)
  obtain e obj where S: "setTableName M a (column_objs h c) = (e, obj)"
    by (cases "setTableName M a (column_objs h c)")
  with Cons.prems have E: "e = None" by (cases e) auto
  let ?h1 = "h\<lparr>column_objs := (column_objs h)(c := obj)\<rparr>"
  from Cons.prems S E have L: "SetAlias_loop M a cs ?h1 = Inr h'" by simp
  show ?case
  proof (cases "r = c")
    case True
    then have "r \<notin> set cs" using Cons.prems(2) by simp
    then have "column_objs h' r = column_objs ?h1 r"
      using SetAlias_loop_frame[OF L] by blast
    then show ?thesis using True S by simp
  next
    case False
    then have "r \<in> set cs" using Cons.prems(3) by simp
    from Cons.IH[OF L _ this] Cons.prems(2) False show ?thesis by simp
  qed
qed

lemma SetAlias_loop_named:
  assumes "SetAlias_loop M a cs h = Inr h'" and "binds_name M" and "r \<in> set cs"
  shows "TableName M (column_objs h' r) = a"
  using assms
proof (induction cs arbitrary: h)
  case Nil
  then show ?case by simp
next
  case (Cons c cs)
  obtain e obj where S: "setTableName M a (column_objs h c) = (e, obj)"
    by (cases "setTableName M a (column_objs h c)")
  with Cons.prems have E: "e = None" by (cases e) auto
  have named: "TableName M obj = a"
    using Cons.prems(2) S E unfolding binds_name_def by (metis fst_conv snd_conv)
  let ?h1 = "h\<lparr>column_objs := (column_objs h)(c := obj)\<rparr>"
  from Cons.prems S E have L: "SetAlias_loop M a cs ?h1 = Inr h'" by simp
  show ?case
  proof (cases "r \<in> set cs")
    case True
    from Cons.IH[OF L Cons.prems(2) this] show ?thesis .
  next
    case False
    then have "r = c" using Cons.prems(3) by simp
    moreover have "column_objs h' r = column_objs ?h1 r"
      using SetAlias_loop_frame[OF L] False by blast
    ultimately show ?thesis using named by simp
  qed
qed

lemma SetAlias_loop_returns:
  assumes "\<forall>c \<in> set cs. fst (setTableName M a (column_objs h c)) = None" and "distinct cs"
  shows "\<exists>h'. SetAlias_loop M a cs h = Inr h'"
  using assms
proof (induction cs arbitrary: h)
  case Nil
  then show ?case by simp
next
  case (Cons c cs)
  obtain obj where S: "setTableName M a (column_objs h c) = (None, obj)"
    using Cons.prems(1) by (cases "setTableName M a (column_objs h c)") auto
  let ?h1 = "h\<lparr>column_objs := (column_objs h)(c := obj)\<rparr>"
  have "\<forall>d \<in> set cs. fst (setTableName M a (column_objs ?h1 d)) = None"
    using Cons.prems by auto
  from Cons.IH[OF this] Cons.prems(2) S show ?case by simp
qed

lemma SetAlias_effect:
  assumes "SetAlias M h t a = Return h'"
  shows "table_objs h' = (table_objs h)(t := (table_objs h t)\<lparr>alias := a\<rparr>)"
    and "lookup_objs h' = lookup_objs h"
    and "next_table h' = next_table h"
    and "\<And>r. r \<notin> set (columns (table_objs h t)) \<Longrightarrow> column_objs h' r = column_objs h r"
    and "\<And>r. distinct (columns (table_objs h t)) \<Longrightarrow> r \<in> set (columns (table_objs h t)) \<Longrightarrow>
           column_objs h' r = snd (setTableName M a (column_objs h r))"
    and "\<And>r. binds_name M \<Longrightarrow> r \<in> set (columns (table_objs h t)) \<Longrightarrow>
           TableName M (column_objs h' r) = a"
proof -
  let ?h1 = "h\<lparr>table_objs := (table_objs h)(t := (table_objs h t)\<lparr>alias := a\<rparr>)\<rparr>"
  have cols: "columns (table_objs ?h1 t) = columns (table_objs h t)" by simp
  from assms have L: "SetAlias_loop M a (columns (table_objs h t)) ?h1 = Inr h'"
    by (auto simp: SetAlias_def Let_def split: sum.splits)
  from SetAlias_loop_frame[OF L]
  show "table_objs h' = (table_objs h)(t := (table_objs h t)\<lparr>alias := a\<rparr>)"
    and "lookup_objs h' = lookup_objs h" and "next_table h' = next_table h"
    and "\<And>r. r \<notin> set (columns (table_objs h t)) \<Longrightarrow> column_objs h' r = column_objs h r"
    by simp_all
  show "\<And>r. distinct (columns (table_objs h t)) \<Longrightarrow> r \<in> set (columns (table_objs h t)) \<Longrightarrow>
           column_objs h' r = snd (setTableName M a (column_objs h r))"
    using SetAlias_loop_bound[OF L] by simp
  show "\<And>r. binds_name M \<Longrightarrow> r \<in> set (columns (table_objs h t)) \<Longrightarrow>
           TableName M (column_objs h' r) = a"
    using SetAlias_loop_named[OF L] by simp
qed

lemma SetAlias_returns:
  assumes "\<forall>c \<in> set (columns (table_objs h t)). fst (setTableName M a (column_objs h c)) = None"
      and "distinct (columns (table_objs h t))"
  shows "\<exists>h'. SetAlias M h t a = Return h'"
proof -
  let ?h1 = "h\<lparr>table_objs := (table_objs h)(t := (table_objs h t)\<lparr>alias := a\<rparr>)\<rparr>"
  have "\<exists>h'. SetAlias_loop M a (columns (table_objs h t)) ?h1 = Inr h'"
    by (rule SetAlias_loop_returns) (use assms in simp_all)
  then show ?thesis by (auto simp: SetAlias_def Let_def)
qed

subsection \<open>Forcing an index\<close>

lemma ForceIndex_effect:
  assumes "ForceIndex h t index = (h', t')"
  shows "t' = next_table h"
    and "table_objs h' = (table_objs h)(t' := (table_objs h t)\<lparr>forcedIndex := index\<rparr>)"
    and "column_objs h' = column_objs h" and "lookup_objs h' = lookup_objs h"
    and "next_table h' = Suc (next_table h)"
  using assms by (auto simp: ForceIndex_def Let_def)

lemma Table_SerializeSql_cong:
  "table_objs h' t = table_objs h t \<Longrightarrow> Table_SerializeSql h' t out = Table_SerializeSql h t out"
  by (simp add: Table_SerializeSql_def Table_TableName_def Let_def)

text \<open>
  C8. \<^verbatim>\<open>ForceIndex\<close> on a table \<open>t\<close> of the store returns a new table \<open>t'\<close> whose
  struct is the struct of \<open>t\<close> with the forced index replaced. No struct that was in the
  store changes (so \<open>t\<close> keeps its alias, its forced index and its column pointers), no
  column object and no lookup map changes, and \<open>t\<close> serializes as before.
\<close>

theorem ForceIndex_frame:
  assumes "t < next_table h" and "ForceIndex h t index = (h', t')"
  shows "t' \<noteq> t \<and>
         table_objs h' t' = (table_objs h t)\<lparr>forcedIndex := index\<rparr> \<and>
         (\<forall>u. u < next_table h \<longrightarrow> table_objs h' u = table_objs h u) \<and>
         column_objs h' = column_objs h \<and> lookup_objs h' = lookup_objs h \<and>
         Table_Columns h' t = Table_Columns h t \<and>
         SerializeSql h' (TablePtr t) out = SerializeSql h (TablePtr t) out"
proof -
  note E = ForceIndex_effect[OF assms(2)]
  have neq: "t' \<noteq> t" using E(1) assms(1) by simp
  have old: "\<forall>u. u < next_table h \<longrightarrow> table_objs h' u = table_objs h u"
    using E(1,2) by simp
  then have same: "table_objs h' t = table_objs h t" using assms(1) by simp
  have "Table_SerializeSql h' t out = Table_SerializeSql h t out"
    by (rule Table_SerializeSql_cong[OF same])
  then show ?thesis using neq old same E by (simp add: Table_Columns_def)
qed

lemma heap_st_fi:
  "ForceIndex heap_st 0 ''idx'' = (heap_st_idx, Suc 0)"
  by (simp add: heap_st_idx_def ForceIndex_def Let_def heap_st_next)

lemma heap_st_idx_table:
  "table_objs heap_st_idx (Suc 0) =
     \<lparr>schemaName = ''s'', name = ''t'', alias = [], columns = [0, Suc 0],
      columnLookup = 0, forcedIndex = ''idx''\<rparr>"
  "table_objs heap_st_idx 0 =
     \<lparr>schemaName = ''s'', name = ''t'', alias = [], columns = [0, Suc 0],
      columnLookup = 0, forcedIndex = []\<rparr>"
  by (simp_all add: heap_st_idx_def ForceIndex_def Let_def heap_st_next heap_st_table)

theorem ForceIndex_frame_witness:
  "ForceIndex heap_st 0 ''idx'' = (heap_st_idx, 1) \<and>
   SerializeSql heap_st (TablePtr 0) [] = (None, ''s.t'') \<and>
   SerializeSql heap_st_idx (TablePtr 0) [] = (None, ''s.t'') \<and>
   SerializeSql heap_st_idx (TablePtr 1) [] = (None, ''s.t FORCE INDEX (idx)'') \<and>
   table_objs heap_st_idx 0 = table_objs heap_st 0"
  using ForceIndex_frame[of 0 heap_st "''idx''" heap_st_idx 1 "[]"]
  by (simp add: heap_st_fi heap_st_next heap_st_idx_table heap_st_table
      Table_SerializeSql_valid is_letter_def)

text \<open>
  C9. The table returned by \<^verbatim>\<open>ForceIndex\<close> holds the column pointers and the map
  reference of the original. So \<^verbatim>\<open>SetAlias\<close> on the copy, or on the original, binds
  the column objects that both tables list, while the alias field changes in the
  receiver only. What binding does to an object is the column's own method: with
  pairwise distinct pointers each listed object is the result of one call of
  \<^verbatim>\<open>setTableName\<close>, and under the law of binding each listed column reports the alias.
  When every binding succeeds (on distinct objects), \<^verbatim>\<open>SetAlias\<close> returns.
\<close>

theorem ForceIndex_shares_columns:
  assumes "t < next_table h" and "ForceIndex h t index = (h1, t')"
  shows "Table_Columns h1 t' = Table_Columns h1 t \<and>
         columnLookup (table_objs h1 t') = columnLookup (table_objs h1 t) \<and>
         (\<forall>h2. SetAlias M h1 t' a = Return h2 \<longrightarrow>
            alias (table_objs h2 t') = a \<and> alias (table_objs h2 t) = alias (table_objs h t) \<and>
            Table_Columns h2 t = Table_Columns h2 t' \<and>
            (distinct (Table_Columns h2 t) \<longrightarrow>
               (\<forall>c \<in> set (Table_Columns h2 t).
                  column_objs h2 c = snd (setTableName M a (column_objs h c)))) \<and>
            (binds_name M \<longrightarrow>
               (\<forall>c \<in> set (Table_Columns h2 t). TableName M (column_objs h2 c) = a))) \<and>
         (\<forall>h2. SetAlias M h1 t a = Return h2 \<longrightarrow>
            alias (table_objs h2 t) = a \<and> alias (table_objs h2 t') = alias (table_objs h t) \<and>
            Table_Columns h2 t' = Table_Columns h2 t \<and>
            (distinct (Table_Columns h2 t') \<longrightarrow>
               (\<forall>c \<in> set (Table_Columns h2 t').
                  column_objs h2 c = snd (setTableName M a (column_objs h c)))) \<and>
            (binds_name M \<longrightarrow>
               (\<forall>c \<in> set (Table_Columns h2 t'). TableName M (column_objs h2 c) = a))) \<and>
         (distinct (columns (table_objs h t)) \<and>
          (\<forall>c \<in> set (columns (table_objs h t)). fst (setTableName M a (column_objs h c)) = None)
            \<longrightarrow> (\<exists>h2. SetAlias M h1 t' a = Return h2) \<and> (\<exists>h2. SetAlias M h1 t a = Return h2))"
proof -
  note E = ForceIndex_effect[OF assms(2)]
  have neq: "t' \<noteq> t" using E(1) assms(1) by simp
  have T: "table_objs h1 t = table_objs h t"
    and T': "table_objs h1 t' = (table_objs h t)\<lparr>forcedIndex := index\<rparr>"
    using E(2) neq by simp_all
  have cols: "columns (table_objs h1 t) = columns (table_objs h t)"
             "columns (table_objs h1 t') = columns (table_objs h t)"
    using T T' by simp_all
  have share: "Table_Columns h1 t' = Table_Columns h1 t \<and>
         columnLookup (table_objs h1 t') = columnLookup (table_objs h1 t)"
    using T T' by (simp add: Table_Columns_def)
  have bound: "alias (table_objs h2 u) = a \<and> alias (table_objs h2 v) = alias (table_objs h t) \<and>
            Table_Columns h2 v = Table_Columns h2 u \<and>
            (distinct (Table_Columns h2 v) \<longrightarrow>
               (\<forall>c \<in> set (Table_Columns h2 v).
                  column_objs h2 c = snd (setTableName M a (column_objs h c)))) \<and>
            (binds_name M \<longrightarrow>
               (\<forall>c \<in> set (Table_Columns h2 v). TableName M (column_objs h2 c) = a))"
    if R: "SetAlias M h1 u a = Return h2" and uv: "u = t' \<and> v = t \<or> u = t \<and> v = t'"
    for h2 u v
  proof -
    note S = SetAlias_effect[OF R]
    have ucols: "columns (table_objs h1 u) = columns (table_objs h t)"
      using uv cols by auto
    have vcols: "Table_Columns h2 v = columns (table_objs h t)"
                "Table_Columns h2 u = columns (table_objs h t)"
      using S(1) uv T T' neq by (auto simp: Table_Columns_def)
    have al: "alias (table_objs h2 u) = a \<and> alias (table_objs h2 v) = alias (table_objs h t)"
      using S(1) uv T T' neq by auto
    have objs: "column_objs h2 c = snd (setTableName M a (column_objs h c))"
      if "distinct (columns (table_objs h t))" and "c \<in> set (columns (table_objs h t))" for c
      using S(5)[of c] that ucols E(3) by simp
    have names: "TableName M (column_objs h2 c) = a"
      if "binds_name M" and "c \<in> set (columns (table_objs h t))" for c
      using S(6)[of c] that ucols by simp
    from al objs names show ?thesis unfolding vcols by blast
  qed
  have ret: "(\<exists>h2. SetAlias M h1 t' a = Return h2) \<and> (\<exists>h2. SetAlias M h1 t a = Return h2)"
    if d: "distinct (columns (table_objs h t))"
      and ok: "\<forall>c \<in> set (columns (table_objs h t)). fst (setTableName M a (column_objs h c)) = None"
  proof
    show "\<exists>h2. SetAlias M h1 t' a = Return h2"
      by (rule SetAlias_returns) (use ok d cols E(3) in simp_all)
    show "\<exists>h2. SetAlias M h1 t a = Return h2"
      by (rule SetAlias_returns) (use ok d cols E(3) in simp_all)
  qed
  have copy: "\<forall>h2. SetAlias M h1 t' a = Return h2 \<longrightarrow>
            alias (table_objs h2 t') = a \<and> alias (table_objs h2 t) = alias (table_objs h t) \<and>
            Table_Columns h2 t = Table_Columns h2 t' \<and>
            (distinct (Table_Columns h2 t) \<longrightarrow>
               (\<forall>c \<in> set (Table_Columns h2 t).
                  column_objs h2 c = snd (setTableName M a (column_objs h c)))) \<and>
            (binds_name M \<longrightarrow>
               (\<forall>c \<in> set (Table_Columns h2 t). TableName M (column_objs h2 c) = a))"
    using bound[of t' _ t] by blast
  have orig: "\<forall>h2. SetAlias M h1 t a = Return h2 \<longrightarrow>
            alias (table_objs h2 t) = a \<and> alias (table_objs h2 t') = alias (table_objs h t) \<and>
            Table_Columns h2 t' = Table_Columns h2 t \<and>
            (distinct (Table_Columns h2 t') \<longrightarrow>
               (\<forall>c \<in> set (Table_Columns h2 t').
                  column_objs h2 c = snd (setTableName M a (column_objs h c)))) \<and>
            (binds_name M \<longrightarrow>
               (\<forall>c \<in> set (Table_Columns h2 t'). TableName M (column_objs h2 c) = a))"
    using bound[of t _ t'] by blast
  from share copy orig ret show ?thesis by blast
qed

lemma heap_st_columns:
  "column_objs heap_st c =
     \<lparr>baseColumn.name = (if c = 0 then ''id'' else if c = Suc 0 then ''title'' else ''year''),
      nullable = NotNullable, tableName = (if c = 0 \<or> c = Suc 0 then ''t'' else [])\<rparr>"
  by (simp add: heap_st_def example_eval)

lemma heap_st_idx_columns: "column_objs heap_st_idx = column_objs heap_st"
  by (simp add: heap_st_idx_def ForceIndex_def Let_def)

lemma SetAlias_copy: "SetAlias baseColumn_methods heap_st_idx (Suc 0) ''a'' = Return heap_copy_a"
  by (simp add: heap_copy_a_def SetAlias_def Let_def heap_st_idx_table baseColumn_methods_def
      baseColumn_setTableName_def)

lemma SetAlias_orig: "SetAlias baseColumn_methods heap_st_idx 0 ''a'' = Return heap_orig_a"
  by (simp add: heap_orig_a_def SetAlias_def Let_def heap_st_idx_table baseColumn_methods_def
      baseColumn_setTableName_def)

theorem ForceIndex_shares_columns_witness:
  "ForceIndex heap_st 0 ''idx'' = (heap_st_idx, 1) \<and>
   map (\<lambda>c. tableName (column_objs heap_st_idx c)) (Table_Columns heap_st_idx 0) = [''t'', ''t''] \<and>
   SetAlias baseColumn_methods heap_st_idx 1 ''a'' = Return heap_copy_a \<and>
   alias (table_objs heap_copy_a 1) = ''a'' \<and> alias (table_objs heap_copy_a 0) = [] \<and>
   map (\<lambda>c. tableName (column_objs heap_copy_a c)) (Table_Columns heap_copy_a 0) = [''a'', ''a''] \<and>
   SetAlias baseColumn_methods heap_st_idx 0 ''a'' = Return heap_orig_a \<and>
   alias (table_objs heap_orig_a 0) = ''a'' \<and> alias (table_objs heap_orig_a 1) = [] \<and>
   map (\<lambda>c. tableName (column_objs heap_orig_a c)) (Table_Columns heap_orig_a 1) = [''a'', ''a'']"
proof -
  have F: "ForceIndex heap_st 0 ''idx'' = (heap_st_idx, 1)"
    by (simp add: heap_st_fi)
  have N: "0 < next_table heap_st"
    by (simp add: heap_st_next)
  note W = ForceIndex_shares_columns[OF N F, of baseColumn_methods "''a''"]
  have C: "SetAlias baseColumn_methods heap_st_idx 1 ''a'' = Return heap_copy_a"
    using SetAlias_copy by simp
  have O: "SetAlias baseColumn_methods heap_st_idx 0 ''a'' = Return heap_orig_a"
    by (rule SetAlias_orig)
  from W C binds_name_baseColumn have copy:
    "alias (table_objs heap_copy_a 1) = ''a'' \<and> alias (table_objs heap_copy_a 0) = [] \<and>
     (\<forall>c \<in> set (Table_Columns heap_copy_a 0).
        TableName baseColumn_methods (column_objs heap_copy_a c) = ''a'')"
    by (simp add: heap_st_table)
  from W O binds_name_baseColumn have orig:
    "alias (table_objs heap_orig_a 0) = ''a'' \<and> alias (table_objs heap_orig_a 1) = [] \<and>
     (\<forall>c \<in> set (Table_Columns heap_orig_a 1).
        TableName baseColumn_methods (column_objs heap_orig_a c) = ''a'')"
    by (simp add: heap_st_table)
  have cc: "Table_Columns heap_copy_a 0 = [0, Suc 0]"
    by (simp add: Table_Columns_def heap_copy_a_def SetAlias_def Let_def heap_st_idx_table
        baseColumn_methods_def baseColumn_setTableName_def)
  have oc: "Table_Columns heap_orig_a (Suc 0) = [0, Suc 0]"
    by (simp add: Table_Columns_def heap_orig_a_def SetAlias_def Let_def heap_st_idx_table
        baseColumn_methods_def baseColumn_setTableName_def)
  have before: "map (\<lambda>c. tableName (column_objs heap_st_idx c)) (Table_Columns heap_st_idx 0)
      = [''t'', ''t'']"
    by (simp add: Table_Columns_def heap_st_idx_table heap_st_idx_columns heap_st_columns)
  have copy_cols:
    "map (\<lambda>c. tableName (column_objs heap_copy_a c)) (Table_Columns heap_copy_a 0) = [''a'', ''a'']"
  proof -
    from copy have "\<forall>c \<in> set (Table_Columns heap_copy_a 0).
        TableName baseColumn_methods (column_objs heap_copy_a c) = ''a''"
      by blast
    then show ?thesis by (simp add: cc baseColumn_methods_def baseColumn_TableName_def)
  qed
  have orig_cols:
    "map (\<lambda>c. tableName (column_objs heap_orig_a c)) (Table_Columns heap_orig_a 1) = [''a'', ''a'']"
  proof -
    from orig have "\<forall>c \<in> set (Table_Columns heap_orig_a 1).
        TableName baseColumn_methods (column_objs heap_orig_a c) = ''a''"
      by blast
    then show ?thesis by (simp add: oc baseColumn_methods_def baseColumn_TableName_def)
  qed
  have copy_alias: "alias (table_objs heap_copy_a 1) = ''a'' \<and> alias (table_objs heap_copy_a 0) = []"
    using copy by blast
  have orig_alias: "alias (table_objs heap_orig_a 0) = ''a'' \<and> alias (table_objs heap_orig_a 1) = []"
    using orig by blast
  show ?thesis
    using F C O before copy_cols orig_cols copy_alias orig_alias by blast
qed

subsection \<open>Construction\<close>

lemma NewTable_loop_frame:
  assumes "NewTable_loop M n m cs h = Inr h'"
  shows "table_objs h' = table_objs h \<and> next_table h' = next_table h \<and>
         next_lookup h' = next_lookup h \<and>
         (\<forall>m'. m' \<noteq> m \<longrightarrow> lookup_objs h' m' = lookup_objs h m') \<and>
         (\<forall>r. r \<notin> set cs \<longrightarrow> column_objs h' r = column_objs h r)"
  using assms
proof (induction cs arbitrary: h)
  case Nil
  then show ?case by simp
next
  case (Cons c cs)
  obtain e obj where S: "setTableName M n (column_objs h c) = (e, obj)"
    by (cases "setTableName M n (column_objs h c)")
  with Cons.prems have E: "e = None" by (cases e) auto
  let ?h2 = "h\<lparr>column_objs := (column_objs h)(c := obj),
               lookup_objs := (lookup_objs h)(m := (lookup_objs h m)(TableName M obj \<mapsto> c))\<rparr>"
  from Cons.prems S E have "NewTable_loop M n m cs ?h2 = Inr h'" by (simp add: Let_def)
  from Cons.IH[OF this] show ?case by auto
qed

lemma NewTable_loop_bound:
  assumes "NewTable_loop M n m cs h = Inr h'" and "distinct cs" and "r \<in> set cs"
  shows "column_objs h' r = snd (setTableName M n (column_objs h r))"
  using assms
proof (induction cs arbitrary: h)
  case Nil
  then show ?case by simp
next
  case (Cons c cs)
  obtain e obj where S: "setTableName M n (column_objs h c) = (e, obj)"
    by (cases "setTableName M n (column_objs h c)")
  with Cons.prems have E: "e = None" by (cases e) auto
  let ?h2 = "h\<lparr>column_objs := (column_objs h)(c := obj),
               lookup_objs := (lookup_objs h)(m := (lookup_objs h m)(TableName M obj \<mapsto> c))\<rparr>"
  from Cons.prems S E have L: "NewTable_loop M n m cs ?h2 = Inr h'" by (simp add: Let_def)
  show ?case
  proof (cases "r = c")
    case True
    then have "r \<notin> set cs" using Cons.prems(2) by simp
    then have "column_objs h' r = column_objs ?h2 r"
      using NewTable_loop_frame[OF L] by blast
    then show ?thesis using True S by simp
  next
    case False
    then have "r \<in> set cs" using Cons.prems(3) by simp
    from Cons.IH[OF L _ this] Cons.prems(2) False show ?thesis by simp
  qed
qed

lemma NewTable_loop_named:
  assumes "NewTable_loop M n m cs h = Inr h'" and "binds_name M"
  shows "(\<forall>r \<in> set cs. TableName M (column_objs h' r) = n) \<and>
         (cs \<noteq> [] \<longrightarrow> lookup_objs h' m = (lookup_objs h m)(n \<mapsto> last cs))"
  using assms
proof (induction cs arbitrary: h)
  case Nil
  then show ?case by simp
next
  case (Cons c cs)
  obtain e obj where S: "setTableName M n (column_objs h c) = (e, obj)"
    by (cases "setTableName M n (column_objs h c)")
  with Cons.prems have E: "e = None" by (cases e) auto
  have named: "TableName M obj = n"
    using Cons.prems(2) S E unfolding binds_name_def by (metis fst_conv snd_conv)
  let ?h2 = "h\<lparr>column_objs := (column_objs h)(c := obj),
               lookup_objs := (lookup_objs h)(m := (lookup_objs h m)(TableName M obj \<mapsto> c))\<rparr>"
  from Cons.prems S E have L: "NewTable_loop M n m cs ?h2 = Inr h'" by (simp add: Let_def)
  note IH = Cons.IH[OF L Cons.prems(2)]
  have names: "\<forall>r \<in> set (c # cs). TableName M (column_objs h' r) = n"
  proof
    fix r assume r: "r \<in> set (c # cs)"
    show "TableName M (column_objs h' r) = n"
    proof (cases "r \<in> set cs")
      case True
      then show ?thesis using IH by blast
    next
      case False
      then have "r = c" using r by simp
      moreover have "column_objs h' r = column_objs ?h2 r"
        using NewTable_loop_frame[OF L] False by blast
      ultimately show ?thesis using named by simp
    qed
  qed
  have map0: "lookup_objs ?h2 m = (lookup_objs h m)(n \<mapsto> c)"
    using named by simp
  have "lookup_objs h' m = (lookup_objs h m)(n \<mapsto> last (c # cs))"
  proof (cases "cs = []")
    case True
    then have "h' = ?h2" using L by simp
    then show ?thesis using True map0 by simp
  next
    case False
    then have "lookup_objs h' m = (lookup_objs ?h2 m)(n \<mapsto> last cs)" using IH by blast
    then show ?thesis using False map0 by simp
  qed
  with names show ?case by blast
qed

text \<open>The map after the loop, in terms of the store the loop started from.\<close>

lemma NewTable_loop_lookup:
  assumes "NewTable_loop M n m cs h = Inr h'" and "distinct cs"
  shows "lookup_objs h' m =
           fold (\<lambda>c f. f(TableName M (snd (setTableName M n (column_objs h c))) \<mapsto> c)) cs
             (lookup_objs h m)"
  using assms
proof (induction cs arbitrary: h)
  case Nil
  then show ?case by simp
next
  case (Cons c cs)
  obtain e obj where S: "setTableName M n (column_objs h c) = (e, obj)"
    by (cases "setTableName M n (column_objs h c)")
  with Cons.prems have E: "e = None" by (cases e) auto
  let ?h2 = "h\<lparr>column_objs := (column_objs h)(c := obj),
               lookup_objs := (lookup_objs h)(m := (lookup_objs h m)(TableName M obj \<mapsto> c))\<rparr>"
  from Cons.prems S E have L: "NewTable_loop M n m cs ?h2 = Inr h'" by (simp add: Let_def)
  have D: "distinct cs" and notin: "c \<notin> set cs" using Cons.prems(2) by simp_all
  have same: "fold (\<lambda>d f. f(TableName M (snd (setTableName M n (column_objs ?h2 d))) \<mapsto> d)) cs f0
          = fold (\<lambda>d f. f(TableName M (snd (setTableName M n (column_objs h d))) \<mapsto> d)) cs f0"
    for f0
    by (rule fold_cong) (use notin in auto)
  have a: "lookup_objs h' m =
      fold (\<lambda>d f. f(TableName M (snd (setTableName M n (column_objs ?h2 d))) \<mapsto> d)) cs
        (lookup_objs ?h2 m)"
    by (rule Cons.IH[OF L D])
  have b: "lookup_objs ?h2 m =
      (lookup_objs h m)(TableName M (snd (setTableName M n (column_objs h c))) \<mapsto> c)"
    using S by simp
  show ?case unfolding a same b by (simp only: fold_simps)
qed

text \<open>A fold of map updates returns, for a key, the last element bound to that key.\<close>

lemma fold_upd_last:
  assumes "j < length cs" and "key (cs ! j) = k"
  shows "\<exists>l. j \<le> l \<and> l < length cs \<and> key (cs ! l) = k \<and>
             (\<forall>l'. l < l' \<and> l' < length cs \<longrightarrow> key (cs ! l') \<noteq> k) \<and>
             fold (\<lambda>c f. f(key c \<mapsto> c)) cs f0 k = Some (cs ! l)"
  using assms
proof (induction cs rule: rev_induct)
  case Nil
  then show ?case by simp
next
  case (snoc x xs)
  show ?case
  proof (cases "key x = k")
    case True
    have "j \<le> length xs" using snoc.prems(1) by simp
    moreover have "key ((xs @ [x]) ! length xs) = k" using True by simp
    moreover have "fold (\<lambda>c f. f(key c \<mapsto> c)) (xs @ [x]) f0 k = Some ((xs @ [x]) ! length xs)"
      using True by simp
    ultimately show ?thesis
      by (intro exI[of _ "length xs"]) auto
  next
    case False
    have jlt: "j < length xs"
    proof (rule ccontr)
      assume "\<not> j < length xs"
      then have "j = length xs" using snoc.prems(1) by simp
      then show False using snoc.prems(2) False by simp
    qed
    then have "key (xs ! j) = k" using snoc.prems(2) by (simp add: nth_append)
    from snoc.IH[OF jlt this] obtain l where l: "j \<le> l" "l < length xs" "key (xs ! l) = k"
      "\<forall>l'. l < l' \<and> l' < length xs \<longrightarrow> key (xs ! l') \<noteq> k"
      "fold (\<lambda>c f. f(key c \<mapsto> c)) xs f0 k = Some (xs ! l)"
      by blast
    have later: "\<forall>l'. l < l' \<and> l' < length (xs @ [x]) \<longrightarrow> key ((xs @ [x]) ! l') \<noteq> k"
    proof (intro allI impI)
      fix l' assume a: "l < l' \<and> l' < length (xs @ [x])"
      show "key ((xs @ [x]) ! l') \<noteq> k"
      proof (cases "l' < length xs")
        case True
        then show ?thesis using l(4) a by (simp add: nth_append)
      next
        case False
        then have "l' = length xs" using a by simp
        then show ?thesis using \<open>key x \<noteq> k\<close> by simp
      qed
    qed
    have l2: "l < length (xs @ [x])" using l(2) by simp
    have l3: "key ((xs @ [x]) ! l) = k" using l(2,3) by (simp add: nth_append)
    have "fold (\<lambda>c f. f(key c \<mapsto> c)) (xs @ [x]) f0 k
        = ((fold (\<lambda>c f. f(key c \<mapsto> c)) xs f0)(key x \<mapsto> x)) k"
      by (simp only: fold_append comp_apply fold_simps)
    also have "\<dots> = fold (\<lambda>c f. f(key c \<mapsto> c)) xs f0 k"
    proof -
      have "k \<noteq> key x" using False by blast
      then show ?thesis by (simp only: fun_upd_apply if_False)
    qed
    also have "\<dots> = Some ((xs @ [x]) ! l)"
      using l(2,5) by (simp only: nth_append if_True)
    finally have l5: "fold (\<lambda>c f. f(key c \<mapsto> c)) (xs @ [x]) f0 k = Some ((xs @ [x]) ! l)" .
    show ?thesis
      using l(1) l2 l3 later l5 by blast
  qed
qed

lemma NewTable_effect:
  assumes "NewTable M h schema n cs = Return (h', t)"
  shows "validIdentifierName n" and "cs \<noteq> []"
    and "t = next_table h"
    and "table_objs h' t =
           \<lparr>schemaName = schema, name = n, alias = [], columns = cs,
            columnLookup = next_lookup h, forcedIndex = []\<rparr>"
    and "NewTable_loop M n (next_lookup h) cs
           (h\<lparr>lookup_objs := (lookup_objs h)(next_lookup h := Map.empty),
               table_objs := (table_objs h)(next_table h :=
                 \<lparr>schemaName = schema, name = n, alias = [], columns = cs,
                  columnLookup = next_lookup h, forcedIndex = []\<rparr>),
               next_lookup := Suc (next_lookup h), next_table := Suc (next_table h)\<rparr>) = Inr h'"
proof -
  show v: "validIdentifierName n"
    using assms by (auto simp: NewTable_def split: if_splits)
  let ?h1 = "h\<lparr>lookup_objs := (lookup_objs h)(next_lookup h := Map.empty),
               table_objs := (table_objs h)(next_table h :=
                 \<lparr>schemaName = schema, name = n, alias = [], columns = cs,
                  columnLookup = next_lookup h, forcedIndex = []\<rparr>),
               next_lookup := Suc (next_lookup h), next_table := Suc (next_table h)\<rparr>"
  from assms v show L: "NewTable_loop M n (next_lookup h) cs ?h1 = Inr h'"
    and "cs \<noteq> []" and tt: "t = next_table h"
    by (auto simp: NewTable_def Let_def split: sum.splits if_splits)
  from NewTable_loop_frame[OF L] tt
  show "table_objs h' t =
           \<lparr>schemaName = schema, name = n, alias = [], columns = cs,
            columnLookup = next_lookup h, forcedIndex = []\<rparr>"
    by simp
qed

lemma NewTable_lookup:
  assumes "NewTable M h schema n cs = Return (h', t)" and "distinct cs"
  shows "lookup_objs h' (columnLookup (table_objs h' t)) =
           fold (\<lambda>c f. f(TableName M (column_objs h' c) \<mapsto> c)) cs Map.empty"
proof -
  note E = NewTable_effect[OF assms(1)]
  let ?h1 = "h\<lparr>lookup_objs := (lookup_objs h)(next_lookup h := Map.empty),
               table_objs := (table_objs h)(next_table h :=
                 \<lparr>schemaName = schema, name = n, alias = [], columns = cs,
                  columnLookup = next_lookup h, forcedIndex = []\<rparr>),
               next_lookup := Suc (next_lookup h), next_table := Suc (next_table h)\<rparr>"
  have "lookup_objs h' (next_lookup h) =
      fold (\<lambda>c f. f(TableName M (snd (setTableName M n (column_objs ?h1 c))) \<mapsto> c)) cs
        (lookup_objs ?h1 (next_lookup h))"
    by (rule NewTable_loop_lookup[OF E(5) assms(2)])
  also have "\<dots> = fold (\<lambda>c f. f(TableName M (column_objs h' c) \<mapsto> c)) cs
        (lookup_objs ?h1 (next_lookup h))"
    by (rule fold_cong) (use NewTable_loop_bound[OF E(5) assms(2)] in auto)
  finally show ?thesis using E(4) by simp
qed

text \<open>
  C2. Let \<^verbatim>\<open>NewTable\<close> return a table built from the column pointers \<open>cs\<close>, and let
  the columns at the positions \<open>i < j\<close> report the same name \<open>k\<close>. Then
  \<^verbatim>\<open>Columns()\<close> is \<open>cs\<close>, every entry in declaration order, and \<^verbatim>\<open>getColumn(k)\<close>
  returns the column at the last position whose column reports \<open>k\<close>. (The pointers are
  pairwise distinct objects, or the methods obey the law of binding: then the name a
  column reports after the construction is the key it was stored under.)
\<close>

theorem NewTable_duplicate_bound_names:
  assumes "NewTable M h schema n cs = Return (h', t)" and "distinct cs \<or> binds_name M"
      and "i < j" and "j < length cs"
      and "TableName M (column_objs h' (cs ! i)) = k"
      and "TableName M (column_objs h' (cs ! j)) = k"
  shows "Table_Columns h' t = cs \<and>
         (\<exists>l. j \<le> l \<and> l < length cs \<and> TableName M (column_objs h' (cs ! l)) = k \<and>
              (\<forall>l'. l < l' \<and> l' < length cs \<longrightarrow> TableName M (column_objs h' (cs ! l')) \<noteq> k) \<and>
              Table_getColumn h' t k = Inr (cs ! l))"
proof -
  note E = NewTable_effect[OF assms(1)]
  have cols: "Table_Columns h' t = cs"
    using E(4) by (simp add: Table_Columns_def)
  show ?thesis
  proof (cases "distinct cs")
    case True
    from fold_upd_last[of j cs "\<lambda>c. TableName M (column_objs h' c)" k Map.empty, OF assms(4,6)]
    obtain l where l: "j \<le> l" "l < length cs" "TableName M (column_objs h' (cs ! l)) = k"
      "\<forall>l'. l < l' \<and> l' < length cs \<longrightarrow> TableName M (column_objs h' (cs ! l')) \<noteq> k"
      "fold (\<lambda>c f. f(TableName M (column_objs h' c) \<mapsto> c)) cs Map.empty k = Some (cs ! l)"
      by blast
    have "Table_getColumn h' t k = Inr (cs ! l)"
      using l(5) NewTable_lookup[OF assms(1) True] by (simp add: Table_getColumn_def)
    with cols l(1-4) show ?thesis by blast
  next
    case False
    then have law: "binds_name M" using assms(2) by blast
    note N = NewTable_loop_named[OF E(5) law]
    have kn: "k = n" using N assms(4,6) by (metis nth_mem)
    define l where "l = length cs - 1"
    have l1: "j \<le> l" "l < length cs" using assms(4) by (simp_all add: l_def)
    have l3: "TableName M (column_objs h' (cs ! l)) = k" using N l1(2) kn by (metis nth_mem)
    have l4: "\<forall>l'. l < l' \<and> l' < length cs \<longrightarrow> TableName M (column_objs h' (cs ! l')) \<noteq> k"
      unfolding l_def by auto
    have "lookup_objs h' (next_lookup h) k = Some (last cs)"
      using N E(2) kn by simp
    then have "Table_getColumn h' t k = Inr (cs ! l)"
      using E(2,4) by (simp add: Table_getColumn_def l_def last_conv_nth)
    with cols l1 l3 l4 show ?thesis by blast
  qed
qed

lemma heap_st_lookup: "lookup_objs heap_st 0 = [''t'' \<mapsto> Suc 0]"
  by (simp add: heap_st_def example_eval)

theorem NewTable_duplicate_bound_names_witness:
  "NewTable baseColumn_methods heap0 ''s'' ''t'' [0, 1] = Return (heap_st, 0) \<and>
   TableName baseColumn_methods (column_objs heap_st 0) = ''t'' \<and>
   TableName baseColumn_methods (column_objs heap_st 1) = ''t'' \<and>
   Table_Columns heap_st 0 = [0, 1] \<and>
   Table_getColumn heap_st 0 ''t'' = Inr 1"
proof -
  have N: "NewTable baseColumn_methods heap0 ''s'' ''t'' [0, 1] = Return (heap_st, 0)"
    using NewTable_st by simp
  have D: "distinct [0, 1::nat] \<or> binds_name baseColumn_methods" by simp
  have K0: "TableName baseColumn_methods (column_objs heap_st ([0, 1] ! 0)) = ''t''"
    by (simp add: baseColumn_methods_def baseColumn_TableName_def heap_st_columns)
  have K1: "TableName baseColumn_methods (column_objs heap_st ([0, 1] ! 1)) = ''t''"
    by (simp add: baseColumn_methods_def baseColumn_TableName_def heap_st_columns)
  from NewTable_duplicate_bound_names[OF N D _ _ K0 K1]
  obtain l where l: "1 \<le> l" "l < length [0, 1::nat]" "Table_Columns heap_st 0 = [0, 1]"
      "Table_getColumn heap_st 0 ''t'' = Inr ([0, 1] ! l)"
    by auto
  then have "l = 1" by simp
  with l K0 K1 N show ?thesis by simp
qed

subsection \<open>Panics and error values\<close>

lemma NewTable_loop_returns:
  assumes "\<forall>c \<in> set cs. fst (setTableName M n (column_objs h c)) = None" and "distinct cs"
  shows "\<exists>h'. NewTable_loop M n m cs h = Inr h'"
  using assms
proof (induction cs arbitrary: h)
  case Nil
  then show ?case by simp
next
  case (Cons c cs)
  obtain obj where S: "setTableName M n (column_objs h c) = (None, obj)"
    using Cons.prems(1) by (cases "setTableName M n (column_objs h c)") auto
  let ?h2 = "h\<lparr>column_objs := (column_objs h)(c := obj),
               lookup_objs := (lookup_objs h)(m := (lookup_objs h m)(TableName M obj \<mapsto> c))\<rparr>"
  have "\<forall>d \<in> set cs. fst (setTableName M n (column_objs ?h2 d)) = None"
    using Cons.prems by auto
  from Cons.IH[OF this] Cons.prems(2) S show ?case by (simp add: Let_def)
qed

lemma NewTable_returns:
  assumes "validIdentifierName n" and "cs \<noteq> []" and "distinct cs"
      and "\<forall>c \<in> set cs. fst (setTableName M n (column_objs h c)) = None"
  shows "\<exists>h'. NewTable M h schema n cs = Return (h', next_table h)"
proof -
  let ?h1 = "h\<lparr>lookup_objs := (lookup_objs h)(next_lookup h := Map.empty),
               table_objs := (table_objs h)(next_table h :=
                 \<lparr>schemaName = schema, name = n, alias = [], columns = cs,
                  columnLookup = next_lookup h, forcedIndex = []\<rparr>),
               next_lookup := Suc (next_lookup h), next_table := Suc (next_table h)\<rparr>"
  have "\<exists>h'. NewTable_loop M n (next_lookup h) cs ?h1 = Inr h'"
    by (rule NewTable_loop_returns) (use assms in simp_all)
  then show ?thesis using assms(1,2) by (auto simp: NewTable_def Let_def)
qed

lemma NewTable_bind_panics:
  assumes "validIdentifierName n" and "fst (setTableName M n (column_objs h c)) = Some e"
  shows "NewTable M h schema n (c # cs) = Panic (PanicError e)"
proof -
  obtain obj where "setTableName M n (column_objs h c) = (Some e, obj)"
    using assms(2) by (cases "setTableName M n (column_objs h c)") auto
  then show ?thesis using assms(1) by (simp add: NewTable_def Let_def)
qed

lemma SetAlias_bind_panics:
  assumes "columns (table_objs h t) = c # cs" and "fst (setTableName M a (column_objs h c)) = Some e"
  shows "SetAlias M h t a = Panic (PanicError e)"
proof -
  obtain obj where "setTableName M a (column_objs h c) = (Some e, obj)"
    using assms(2) by (cases "setTableName M a (column_objs h c)") auto
  then show ?thesis using assms(1) by (simp add: SetAlias_def Let_def)
qed

text \<open>
  The loops stop at the first binding that returns an error, wherever it is in the list:
  \<open>h2\<close> is the store after the columns before \<open>c\<close> were bound. What a binding
  sees is the column objects only, so the loop may start from any store \<open>h'\<close> that holds
  the same column objects.
\<close>

lemma NewTable_loop_stops:
  assumes "NewTable_loop M n m pre h = Inr h2"
      and "fst (setTableName M n (column_objs h2 c)) = Some e"
      and "column_objs h' = column_objs h"
  shows "NewTable_loop M n m' (pre @ c # post) h' = Inl e"
  using assms
proof (induction pre arbitrary: h h')
  case Nil
  then obtain obj where "setTableName M n (column_objs h' c) = (Some e, obj)"
    by (cases "setTableName M n (column_objs h c)") auto
  then show ?case by simp
next
  case (Cons d pre)
  obtain e' obj where S: "setTableName M n (column_objs h d) = (e', obj)"
    by (cases "setTableName M n (column_objs h d)")
  with Cons.prems(1) have E: "e' = None" by (cases e') auto
  let ?h1 = "h\<lparr>column_objs := (column_objs h)(d := obj),
               lookup_objs := (lookup_objs h)(m := (lookup_objs h m)(TableName M obj \<mapsto> d))\<rparr>"
  let ?h1' = "h'\<lparr>column_objs := (column_objs h')(d := obj),
               lookup_objs := (lookup_objs h')(m' := (lookup_objs h' m')(TableName M obj \<mapsto> d))\<rparr>"
  from Cons.prems(1) S E have L: "NewTable_loop M n m pre ?h1 = Inr h2" by (simp add: Let_def)
  have same: "column_objs ?h1' = column_objs ?h1" using Cons.prems(3) by simp
  have "NewTable_loop M n m' (pre @ c # post) ?h1' = Inl e"
    by (rule Cons.IH[OF L Cons.prems(2) same])
  then show ?case using S E Cons.prems(3) by (simp add: Let_def)
qed

lemma SetAlias_loop_stops:
  assumes "SetAlias_loop M a pre h = Inr h2"
      and "fst (setTableName M a (column_objs h2 c)) = Some e"
      and "column_objs h' = column_objs h"
  shows "SetAlias_loop M a (pre @ c # post) h' = Inl e"
  using assms
proof (induction pre arbitrary: h h')
  case Nil
  then obtain obj where "setTableName M a (column_objs h' c) = (Some e, obj)"
    by (cases "setTableName M a (column_objs h c)") auto
  then show ?case by simp
next
  case (Cons d pre)
  obtain e' obj where S: "setTableName M a (column_objs h d) = (e', obj)"
    by (cases "setTableName M a (column_objs h d)")
  with Cons.prems(1) have E: "e' = None" by (cases e') auto
  let ?h1 = "h\<lparr>column_objs := (column_objs h)(d := obj)\<rparr>"
  let ?h1' = "h'\<lparr>column_objs := (column_objs h')(d := obj)\<rparr>"
  from Cons.prems(1) S E have L: "SetAlias_loop M a pre ?h1 = Inr h2" by simp
  have same: "column_objs ?h1' = column_objs ?h1" using Cons.prems(3) by simp
  have "SetAlias_loop M a (pre @ c # post) ?h1' = Inl e"
    by (rule Cons.IH[OF L Cons.prems(2) same])
  then show ?case using S E Cons.prems(3) by simp
qed

lemma NewTable_bind_panics_anywhere:
  assumes "validIdentifierName n" and "NewTable_loop M n m pre h = Inr h2"
      and "fst (setTableName M n (column_objs h2 c)) = Some e"
  shows "NewTable M h schema n (pre @ c # post) = Panic (PanicError e)"
proof -
  let ?cs = "pre @ c # post"
  let ?h1 = "h\<lparr>lookup_objs := (lookup_objs h)(next_lookup h := Map.empty),
               table_objs := (table_objs h)(next_table h :=
                 \<lparr>schemaName = schema, name = n, alias = [], columns = ?cs,
                  columnLookup = next_lookup h, forcedIndex = []\<rparr>),
               next_lookup := Suc (next_lookup h), next_table := Suc (next_table h)\<rparr>"
  have "NewTable_loop M n (next_lookup h) ?cs ?h1 = Inl e"
    by (rule NewTable_loop_stops[OF assms(2,3)]) simp
  then show ?thesis using assms(1) by (simp add: NewTable_def Let_def)
qed

lemma SetAlias_bind_panics_anywhere:
  assumes "columns (table_objs h t) = pre @ c # post" and "SetAlias_loop M a pre h = Inr h2"
      and "fst (setTableName M a (column_objs h2 c)) = Some e"
  shows "SetAlias M h t a = Panic (PanicError e)"
proof -
  let ?h1 = "h\<lparr>table_objs := (table_objs h)(t := (table_objs h t)\<lparr>alias := a\<rparr>)\<rparr>"
  have "SetAlias_loop M a (pre @ c # post) ?h1 = Inl e"
    by (rule SetAlias_loop_stops[OF assms(2,3)]) simp
  then show ?thesis using assms(1) by (simp add: SetAlias_def Let_def)
qed

text \<open>The same in terms of the store before the call, for distinct column objects.\<close>

lemma NewTable_bind_panics_distinct:
  assumes "validIdentifierName n" and "distinct (pre @ [c])"
      and "\<forall>d \<in> set pre. fst (setTableName M n (column_objs h d)) = None"
      and "fst (setTableName M n (column_objs h c)) = Some e"
  shows "NewTable M h schema n (pre @ c # post) = Panic (PanicError e)"
proof -
  have d: "distinct pre" and notin: "c \<notin> set pre" using assms(2) by simp_all
  obtain h2 where L: "NewTable_loop M n 0 pre h = Inr h2"
    using NewTable_loop_returns[OF assms(3) d] by blast
  have "column_objs h2 c = column_objs h c"
    using NewTable_loop_frame[OF L] notin by blast
  then have "fst (setTableName M n (column_objs h2 c)) = Some e" using assms(4) by simp
  from NewTable_bind_panics_anywhere[OF assms(1) L this] show ?thesis .
qed

lemma SetAlias_bind_panics_distinct:
  assumes "columns (table_objs h t) = pre @ c # post" and "distinct (pre @ [c])"
      and "\<forall>d \<in> set pre. fst (setTableName M a (column_objs h d)) = None"
      and "fst (setTableName M a (column_objs h c)) = Some e"
  shows "SetAlias M h t a = Panic (PanicError e)"
proof -
  have d: "distinct pre" and notin: "c \<notin> set pre" using assms(2) by simp_all
  obtain h2 where L: "SetAlias_loop M a pre h = Inr h2"
    using SetAlias_loop_returns[OF assms(3) d] by blast
  have "column_objs h2 c = column_objs h c"
    using SetAlias_loop_frame[OF L] notin by blast
  then have "fst (setTableName M a (column_objs h2 c)) = Some e" using assms(4) by simp
  from SetAlias_bind_panics_anywhere[OF assms(1) L this] show ?thesis .
qed

text \<open>
  C1 as stated fails: \<^verbatim>\<open>NewTable\<close> panics on a table name that fails identifier
  validation, and on an empty column list.
\<close>

theorem NewTable_panics_counterexample:
  "NewTable baseColumn_methods heap0 ''s'' ''1t'' [0, 1] =
     Panic (PanicString ''Invalid tableName name'') \<and>
   NewTable baseColumn_methods heap0 ''s'' ''t'' [] =
     Panic (PanicString ''Table t has no columns'')"
  by (simp add: NewTable_def Let_def is_letter_def is_digit_def)

text \<open>
  C1, as the code has it. Column lookup and serialization report a violated precondition
  as an error value: \<^verbatim>\<open>getColumn\<close> of a name that is not in the map,
  \<^verbatim>\<open>SerializeSql\<close> of a table whose schema name or forced index fails validation, and
  \<^verbatim>\<open>SerializeSql\<close> of a join with a missing side or a missing condition.
  Construction and alias setting do not: \<^verbatim>\<open>NewTable\<close> panics on an invalid table name,
  on an empty column list and on the error of a column binding, and \<^verbatim>\<open>SetAlias\<close>,
  which has no error result, panics on the error of a column binding. The failing
  binding may be that of any column \<open>c\<close> of the list \<open>pre @ c # post\<close>: the panic
  carries the error of the first binding that fails, stated once with the store \<open>h2\<close>
  that the bindings of \<open>pre\<close> leave behind, and once, for distinct column objects,
  with the store before the call. \<^verbatim>\<open>NewTable\<close> returns a table when the name is
  valid, the columns are not empty (and distinct objects) and every binding succeeds.
\<close>

theorem panics_and_error_values:
  "(\<not> validIdentifierName n \<longrightarrow>
      NewTable M h schema n cs = Panic (PanicString ''Invalid tableName name'')) \<and>
   (validIdentifierName n \<longrightarrow>
      NewTable M h schema n [] = Panic (PanicString (''Table '' @ n @ '' has no columns''))) \<and>
   (validIdentifierName n \<and> fst (setTableName M n (column_objs h c)) = Some e \<longrightarrow>
      NewTable M h schema n (c # cs) = Panic (PanicError e)) \<and>
   (validIdentifierName n \<and> cs \<noteq> [] \<and> distinct cs \<and>
    (\<forall>d \<in> set cs. fst (setTableName M n (column_objs h d)) = None) \<longrightarrow>
      (\<exists>h'. NewTable M h schema n cs = Return (h', next_table h))) \<and>
   (columns (table_objs h t) = c # cs \<and> fst (setTableName M a (column_objs h c)) = Some e \<longrightarrow>
      SetAlias M h t a = Panic (PanicError e)) \<and>
   (lookup_objs h (columnLookup (table_objs h t)) k = None \<longrightarrow>
      Table_getColumn h t k =
        Inl (Error (''No such column '' @ [CHR 0x27] @ k @ [CHR 0x27] @ '' in tableName '' @
                    [CHR 0x27] @ name (table_objs h t) @ [CHR 0x27]))) \<and>
   (\<not> validIdentifierName (schemaName (table_objs h t)) \<longrightarrow>
      SerializeSql h (TablePtr t) out = (Some (Error ''Invalid database name specified''), out)) \<and>
   (validIdentifierName (schemaName (table_objs h t)) \<and> forcedIndex (table_objs h t) \<noteq> [] \<and>
    \<not> validIdentifierName (forcedIndex (table_objs h t)) \<longrightarrow>
      fst (SerializeSql h (TablePtr t) out) =
        Some (Error ([CHR 0x27] @ forcedIndex (table_objs h t) @ [CHR 0x27] @
                     '' is not a valid identifier for an index''))) \<and>
   (l = None \<or> r = None \<or> cond = None \<and> kind \<noteq> CROSS_JOIN \<longrightarrow>
      fst (SerializeSql h (newJoinTable l r kind cond) out) \<noteq> None \<and>
      snd (SerializeSql h (newJoinTable l r kind cond) out) = out) \<and>
   (validIdentifierName n \<and> NewTable_loop M n m pre h = Inr h2 \<and>
    fst (setTableName M n (column_objs h2 c)) = Some e \<longrightarrow>
      NewTable M h schema n (pre @ c # post) = Panic (PanicError e)) \<and>
   (validIdentifierName n \<and> distinct (pre @ [c]) \<and>
    (\<forall>d \<in> set pre. fst (setTableName M n (column_objs h d)) = None) \<and>
    fst (setTableName M n (column_objs h c)) = Some e \<longrightarrow>
      NewTable M h schema n (pre @ c # post) = Panic (PanicError e)) \<and>
   (columns (table_objs h t) = pre @ c # post \<and> SetAlias_loop M a pre h = Inr h2 \<and>
    fst (setTableName M a (column_objs h2 c)) = Some e \<longrightarrow>
      SetAlias M h t a = Panic (PanicError e)) \<and>
   (columns (table_objs h t) = pre @ c # post \<and> distinct (pre @ [c]) \<and>
    (\<forall>d \<in> set pre. fst (setTableName M a (column_objs h d)) = None) \<and>
    fst (setTableName M a (column_objs h c)) = Some e \<longrightarrow>
      SetAlias M h t a = Panic (PanicError e))"
proof -
  have 1: "\<not> validIdentifierName n \<longrightarrow>
      NewTable M h schema n cs = Panic (PanicString ''Invalid tableName name'')"
    by (simp add: NewTable_def)
  have 2: "validIdentifierName n \<longrightarrow>
      NewTable M h schema n [] = Panic (PanicString (''Table '' @ n @ '' has no columns''))"
    by (simp add: NewTable_def Let_def)
  have 3: "validIdentifierName n \<and> fst (setTableName M n (column_objs h c)) = Some e \<longrightarrow>
      NewTable M h schema n (c # cs) = Panic (PanicError e)"
    using NewTable_bind_panics[of n M h c e schema cs] by blast
  have 4: "validIdentifierName n \<and> cs \<noteq> [] \<and> distinct cs \<and>
    (\<forall>d \<in> set cs. fst (setTableName M n (column_objs h d)) = None) \<longrightarrow>
      (\<exists>h'. NewTable M h schema n cs = Return (h', next_table h))"
    using NewTable_returns[of n cs M h schema] by blast
  have 5: "columns (table_objs h t) = c # cs \<and> fst (setTableName M a (column_objs h c)) = Some e \<longrightarrow>
      SetAlias M h t a = Panic (PanicError e)"
    using SetAlias_bind_panics[of h t c cs M a e] by blast
  have 6: "lookup_objs h (columnLookup (table_objs h t)) k = None \<longrightarrow>
      Table_getColumn h t k =
        Inl (Error (''No such column '' @ [CHR 0x27] @ k @ [CHR 0x27] @ '' in tableName '' @
                    [CHR 0x27] @ name (table_objs h t) @ [CHR 0x27]))"
    by (simp add: Table_getColumn_def)
  have 7: "\<not> validIdentifierName (schemaName (table_objs h t)) \<longrightarrow>
      SerializeSql h (TablePtr t) out = (Some (Error ''Invalid database name specified''), out)"
    by (simp add: Table_SerializeSql_def Let_def)
  have 8: "validIdentifierName (schemaName (table_objs h t)) \<and> forcedIndex (table_objs h t) \<noteq> [] \<and>
    \<not> validIdentifierName (forcedIndex (table_objs h t)) \<longrightarrow>
      fst (SerializeSql h (TablePtr t) out) =
        Some (Error ([CHR 0x27] @ forcedIndex (table_objs h t) @ [CHR 0x27] @
                     '' is not a valid identifier for an index''))"
    by (simp add: Table_SerializeSql_def Let_def)
  have 9: "l = None \<or> r = None \<or> cond = None \<and> kind \<noteq> CROSS_JOIN \<longrightarrow>
      fst (SerializeSql h (newJoinTable l r kind cond) out) \<noteq> None \<and>
      snd (SerializeSql h (newJoinTable l r kind cond) out) = out"
    by (auto simp: newJoinTable_def split: option.splits)
  have 10: "validIdentifierName n \<and> NewTable_loop M n m pre h = Inr h2 \<and>
    fst (setTableName M n (column_objs h2 c)) = Some e \<longrightarrow>
      NewTable M h schema n (pre @ c # post) = Panic (PanicError e)"
    using NewTable_bind_panics_anywhere[of n M m pre h h2 c e schema post] by blast
  have 11: "validIdentifierName n \<and> distinct (pre @ [c]) \<and>
    (\<forall>d \<in> set pre. fst (setTableName M n (column_objs h d)) = None) \<and>
    fst (setTableName M n (column_objs h c)) = Some e \<longrightarrow>
      NewTable M h schema n (pre @ c # post) = Panic (PanicError e)"
    using NewTable_bind_panics_distinct[of n pre c M h e schema post] by blast
  have 12: "columns (table_objs h t) = pre @ c # post \<and> SetAlias_loop M a pre h = Inr h2 \<and>
    fst (setTableName M a (column_objs h2 c)) = Some e \<longrightarrow>
      SetAlias M h t a = Panic (PanicError e)"
    using SetAlias_bind_panics_anywhere[of h t pre c post M a h2 e] by blast
  have 13: "columns (table_objs h t) = pre @ c # post \<and> distinct (pre @ [c]) \<and>
    (\<forall>d \<in> set pre. fst (setTableName M a (column_objs h d)) = None) \<and>
    fst (setTableName M a (column_objs h c)) = Some e \<longrightarrow>
      SetAlias M h t a = Panic (PanicError e)"
    using SetAlias_bind_panics_distinct[of h t pre c post M a e] by blast
  from 1 2 3 4 5 6 7 8 9 10 11 12 13 show ?thesis by (intro conjI)
qed

theorem panics_and_error_values_witness:
  "NewTable baseColumn_methods heap0 ''s'' ''1t'' [0, 1] =
     Panic (PanicString ''Invalid tableName name'') \<and>
   NewTable baseColumn_methods heap0 ''s'' ''t'' [] =
     Panic (PanicString ''Table t has no columns'') \<and>
   (\<exists>h'. NewTable baseColumn_methods heap0 ''s'' ''t'' [0, 1] = Return (h', 0)) \<and>
   NewTable reserved_methods heap0 ''s'' ''select'' [0, 1] =
     Panic (PanicError (Error ''reserved word'')) \<and>
   SetAlias reserved_methods heap_st 0 ''select'' =
     Panic (PanicError (Error ''reserved word'')) \<and>
   Table_getColumn heap_st 0 ''id'' =
     Inl (Error (''No such column '' @ [CHR 0x27] @ ''id'' @ [CHR 0x27] @ '' in tableName '' @
                 [CHR 0x27] @ ''t'' @ [CHR 0x27])) \<and>
   SerializeSql heap_bad (TablePtr 2) ''x'' =
     (Some (Error ''Invalid database name specified''), ''x'') \<and>
   fst (SerializeSql heap_bad (TablePtr 1) ''x'') =
     Some (Error ([CHR 0x27] @ ''i;x'' @ [CHR 0x27] @ '' is not a valid identifier for an index'')) \<and>
   fst (SerializeSql heap_st (RightJoinOn (Some (TablePtr 0)) (Some (TablePtr 0)) None) ''x'')
     \<noteq> None \<and>
   snd (SerializeSql heap_st (RightJoinOn (Some (TablePtr 0)) (Some (TablePtr 0)) None) ''x'')
     = ''x'' \<and>
   fst (setTableName picky_methods ''t'' (column_objs heap0 0)) = None \<and>
   NewTable picky_methods heap0 ''s'' ''t'' [0, 1] =
     Panic (PanicError (Error ''unbindable column'')) \<and>
   SetAlias picky_methods heap_st 0 ''a'' =
     Panic (PanicError (Error ''unbindable column''))"
proof -
  have bad_name: "\<not> validIdentifierName ''1t''"
    by (simp add: is_letter_def is_digit_def)
  have good_name: "validIdentifierName ''t''" "validIdentifierName ''select''"
    by (simp_all add: is_letter_def is_digit_def)
  have a: "NewTable baseColumn_methods heap0 ''s'' ''1t'' [0, 1] =
      Panic (PanicString ''Invalid tableName name'')"
    using panics_and_error_values[where n = "''1t''" and M = baseColumn_methods and h = heap0
        and schema = "''s''" and cs = "[0, 1]", THEN conjunct1] bad_name
    by (rule mp)
  have "NewTable baseColumn_methods heap0 ''s'' ''t'' [] =
      Panic (PanicString (''Table '' @ ''t'' @ '' has no columns''))"
    using panics_and_error_values[where n = "''t''" and M = baseColumn_methods and h = heap0
        and schema = "''s''", THEN conjunct2, THEN conjunct1] good_name(1)
    by (rule mp)
  then have b: "NewTable baseColumn_methods heap0 ''s'' ''t'' [] =
      Panic (PanicString ''Table t has no columns'')"
    by simp
  have binds: "validIdentifierName ''t'' \<and> [0, 1] \<noteq> [] \<and> distinct [0, 1::nat] \<and>
      (\<forall>d \<in> set [0, 1]. fst (setTableName baseColumn_methods ''t'' (column_objs heap0 d)) = None)"
    using good_name(1) by (simp add: baseColumn_methods_def baseColumn_setTableName_def)
  have nt: "next_table heap0 = 0"
    by (simp add: heap0_def)
  have "\<exists>h'. NewTable baseColumn_methods heap0 ''s'' ''t'' [0, 1] = Return (h', next_table heap0)"
    using panics_and_error_values[where n = "''t''" and M = baseColumn_methods and h = heap0
        and schema = "''s''" and cs = "[0, 1]", THEN conjunct2, THEN conjunct2, THEN conjunct2, THEN conjunct1] binds
    by (rule mp)
  then have c: "\<exists>h'. NewTable baseColumn_methods heap0 ''s'' ''t'' [0, 1] = Return (h', 0)"
    unfolding nt .
  have refuse: "fst (setTableName reserved_methods ''select'' obj) = Some (Error ''reserved word'')"
    for obj
    by (simp add: reserved_methods_def reserved_setTableName_def)
  have d: "NewTable reserved_methods heap0 ''s'' ''select'' [0, 1] =
      Panic (PanicError (Error ''reserved word''))"
    using panics_and_error_values[where n = "''select''" and M = reserved_methods and h = heap0
        and schema = "''s''" and c = 0 and cs = "[1]" and e = "Error ''reserved word''", THEN conjunct2, THEN conjunct2, THEN conjunct1]
      conjI[OF good_name(2) refuse]
    by (rule mp)
  have cols: "columns (table_objs heap_st 0) = [0, 1]"
    by (simp add: heap_st_table)
  have e: "SetAlias reserved_methods heap_st 0 ''select'' =
      Panic (PanicError (Error ''reserved word''))"
    using panics_and_error_values[where M = reserved_methods and h = heap_st and t = 0
        and c = 0 and cs = "[1]" and a = "''select''" and e = "Error ''reserved word''", THEN conjunct2, THEN conjunct2, THEN conjunct2, THEN conjunct2, THEN conjunct1]
      conjI[OF cols refuse]
    by (rule mp)
  have absent: "lookup_objs heap_st (columnLookup (table_objs heap_st 0)) ''id'' = None"
    by (simp add: heap_st_table heap_st_lookup)
  have "Table_getColumn heap_st 0 ''id'' =
     Inl (Error (''No such column '' @ [CHR 0x27] @ ''id'' @ [CHR 0x27] @ '' in tableName '' @
                 [CHR 0x27] @ name (table_objs heap_st 0) @ [CHR 0x27]))"
    using panics_and_error_values[where h = heap_st and t = 0 and k = "''id''", THEN conjunct2, THEN conjunct2, THEN conjunct2, THEN conjunct2, THEN conjunct2, THEN conjunct1] absent
    by (rule mp)
  then have f: "Table_getColumn heap_st 0 ''id'' =
     Inl (Error (''No such column '' @ [CHR 0x27] @ ''id'' @ [CHR 0x27] @ '' in tableName '' @
                 [CHR 0x27] @ ''t'' @ [CHR 0x27]))"
    by (simp add: heap_st_table)
  have bad_schema: "\<not> validIdentifierName (schemaName (table_objs heap_bad 2))"
    by (simp add: heap_bad_tables is_letter_def is_digit_def)
  have g: "SerializeSql heap_bad (TablePtr 2) ''x'' =
     (Some (Error ''Invalid database name specified''), ''x'')"
    using panics_and_error_values[where h = heap_bad and t = 2 and out = "''x''", THEN conjunct2, THEN conjunct2, THEN conjunct2, THEN conjunct2, THEN conjunct2, THEN conjunct2, THEN conjunct1] bad_schema
    by (rule mp)
  have bad_index: "validIdentifierName (schemaName (table_objs heap_bad 1)) \<and>
      forcedIndex (table_objs heap_bad 1) \<noteq> [] \<and>
      \<not> validIdentifierName (forcedIndex (table_objs heap_bad 1))"
    by (simp add: heap_bad_tables is_letter_def is_digit_def)
  have "fst (SerializeSql heap_bad (TablePtr 1) ''x'') =
     Some (Error ([CHR 0x27] @ forcedIndex (table_objs heap_bad 1) @ [CHR 0x27] @
                  '' is not a valid identifier for an index''))"
    using panics_and_error_values[where h = heap_bad and t = 1 and out = "''x''", THEN conjunct2, THEN conjunct2, THEN conjunct2, THEN conjunct2, THEN conjunct2, THEN conjunct2, THEN conjunct2, THEN conjunct1] bad_index
    by (rule mp)
  then have h: "fst (SerializeSql heap_bad (TablePtr 1) ''x'') =
     Some (Error ([CHR 0x27] @ ''i;x'' @ [CHR 0x27] @ '' is not a valid identifier for an index''))"
    by (simp add: heap_bad_tables)
  have missing: "Some (TablePtr 0) = None \<or> Some (TablePtr 0) = None \<or>
      (None :: BoolExpression option) = None \<and> RIGHT_JOIN \<noteq> CROSS_JOIN"
    by simp
  have "fst (SerializeSql heap_st
          (newJoinTable (Some (TablePtr 0)) (Some (TablePtr 0)) RIGHT_JOIN None) ''x'') \<noteq> None \<and>
        snd (SerializeSql heap_st
          (newJoinTable (Some (TablePtr 0)) (Some (TablePtr 0)) RIGHT_JOIN None) ''x'') = ''x''"
    using panics_and_error_values[where h = heap_st and l = "Some (TablePtr 0)"
        and r = "Some (TablePtr 0)" and cond = None and kind = RIGHT_JOIN and out = "''x''", THEN conjunct2, THEN conjunct2, THEN conjunct2, THEN conjunct2, THEN conjunct2, THEN conjunct2, THEN conjunct2, THEN conjunct2, THEN conjunct1]
      missing
    by (rule mp)
  then have i:
    "fst (SerializeSql heap_st (RightJoinOn (Some (TablePtr 0)) (Some (TablePtr 0)) None) ''x'')
       \<noteq> None \<and>
     snd (SerializeSql heap_st (RightJoinOn (Some (TablePtr 0)) (Some (TablePtr 0)) None) ''x'')
       = ''x''"
    unfolding RightJoinOn_def .
  have first_ok: "fst (setTableName picky_methods table (column_objs heap0 0)) = None"
    "fst (setTableName picky_methods table (column_objs heap_st 0)) = None" for table
    by (simp_all add: picky_methods_def picky_setTableName_def heap0_def heap_st_columns)
  have second_fails:
    "fst (setTableName picky_methods table (column_objs heap0 1)) = Some (Error ''unbindable column'')"
    "fst (setTableName picky_methods table (column_objs heap_st 1)) = Some (Error ''unbindable column'')"
    for table
    by (simp_all add: picky_methods_def picky_setTableName_def heap0_def heap_st_columns)
  have later_new: "validIdentifierName ''t'' \<and> distinct ([0] @ [1::nat]) \<and>
      (\<forall>d \<in> set [0]. fst (setTableName picky_methods ''t'' (column_objs heap0 d)) = None) \<and>
      fst (setTableName picky_methods ''t'' (column_objs heap0 1)) = Some (Error ''unbindable column'')"
    using good_name(1) first_ok(1) second_fails(1) by simp
  have "NewTable picky_methods heap0 ''s'' ''t'' ([0] @ 1 # []) =
      Panic (PanicError (Error ''unbindable column''))"
    using panics_and_error_values[where n = "''t''" and M = picky_methods and h = heap0
        and schema = "''s''" and pre = "[0]" and c = 1 and post = "[]"
        and e = "Error ''unbindable column''", THEN conjunct2, THEN conjunct2, THEN conjunct2, THEN conjunct2, THEN conjunct2, THEN conjunct2, THEN conjunct2, THEN conjunct2, THEN conjunct2, THEN conjunct2, THEN conjunct1] later_new
    by (rule mp)
  then have j: "NewTable picky_methods heap0 ''s'' ''t'' [0, 1] =
      Panic (PanicError (Error ''unbindable column''))"
    by simp
  have later_set: "columns (table_objs heap_st 0) = [0] @ 1 # [] \<and> distinct ([0] @ [1::nat]) \<and>
      (\<forall>d \<in> set [0]. fst (setTableName picky_methods ''a'' (column_objs heap_st d)) = None) \<and>
      fst (setTableName picky_methods ''a'' (column_objs heap_st 1)) = Some (Error ''unbindable column'')"
    using cols first_ok(2) second_fails(2) by simp
  have k: "SetAlias picky_methods heap_st 0 ''a'' =
      Panic (PanicError (Error ''unbindable column''))"
    using panics_and_error_values[where M = picky_methods and h = heap_st and t = 0
        and a = "''a''" and pre = "[0]" and c = 1 and post = "[]"
        and e = "Error ''unbindable column''", THEN conjunct2, THEN conjunct2, THEN conjunct2, THEN conjunct2, THEN conjunct2, THEN conjunct2, THEN conjunct2, THEN conjunct2, THEN conjunct2, THEN conjunct2, THEN conjunct2, THEN conjunct2] later_set
    by (rule mp)
  note i1 = i[THEN conjunct1] and i2 = i[THEN conjunct2]
  note ok = first_ok(1)[of "''t''"]
  show ?thesis
    by (intro conjI, fact a, fact b, fact c, fact d, fact e, fact f, fact g, fact h,
        fact i1, fact i2, fact ok, fact j, fact k)
qed

end
